theory Spec2Isabelle
  imports Main "HOL-Library.Word"
begin

section \<open>C strings, pointers and faults\<close>

text \<open>
  The model covers the core of \<^verbatim>\<open>source/ota_over_mqtt_demo.c\<close>: the event buffer pool,
  the topic classifier, the job action dispatcher, the inbound job callback and the
  blocking wrappers around the MQTT agent.

  A pointer to characters is modelled by the list of bytes from the pointee up to the end
  of the object it points into, so \<^verbatim>\<open>&p[k]\<close> is \<open>drop k p\<close> and a read past the end of the
  object is the fault \<open>OutOfBounds\<close>. A failed \<^verbatim>\<open>configASSERT\<close> is the fault
  \<open>AssertFailed\<close>. Every function that can fault returns \<open>fault + result\<close>.
\<close>

datatype fault = AssertFailed | OutOfBounds

definition NUL :: char where
  "NUL = CHR 0x00"

text \<open>A string literal, or any NUL-terminated string: its characters and the terminator.\<close>

definition cstr :: "string \<Rightarrow> char list" where
  "cstr s = s @ [NUL]"

text \<open>
  \<^verbatim>\<open>strncmp(s1, s2, n)\<close>: compares at most \<open>n\<close> characters as unsigned bytes, stops at the
  first difference or after a common NUL. With \<open>n = 0\<close> nothing is read.
\<close>

fun strncmp :: "char list \<Rightarrow> char list \<Rightarrow> nat \<Rightarrow> fault + int" where
  "strncmp s1 s2 0 = Inr 0"
| "strncmp (a # s1) (b # s2) (Suc n) =
     (if a \<noteq> b then Inr (int (of_char a) - int (of_char b))
      else if a = NUL then Inr 0
      else strncmp s1 s2 n)"
| "strncmp s1 s2 (Suc n) = Inl OutOfBounds"

section \<open>Topic classifier\<close>

datatype OtaMessageType = OtaMessageTypeJob | OtaMessageTypeStream | OtaNumOfMessageType

definition OTA_TOPIC_PREFIX :: string where
  "OTA_TOPIC_PREFIX = ''$aws/things/''"

definition OTA_TOPIC_PREFIX_LENGTH :: nat where
  "OTA_TOPIC_PREFIX_LENGTH = length (cstr OTA_TOPIC_PREFIX) - 1"

definition OTA_TOPIC_JOBS :: string where
  "OTA_TOPIC_JOBS = ''jobs''"

definition OTA_TOPIC_STREAM :: string where
  "OTA_TOPIC_STREAM = ''streams''"

definition pOtaMessageStrings :: "char list list" where
  "pOtaMessageStrings = [cstr OTA_TOPIC_JOBS, cstr OTA_TOPIC_STREAM]"

text \<open>The enum value of a table index (\<^verbatim>\<open>retMesageType = i\<close>, taken only when \<open>i < 2\<close>).\<close>

definition OtaMessageType_of_index :: "nat \<Rightarrow> OtaMessageType" where
  "OtaMessageType_of_index i =
     (if i = 0 then OtaMessageTypeJob
      else if i = 1 then OtaMessageTypeStream
      else OtaNumOfMessageType)"

text \<open>
  The two field-extraction loops of \<^verbatim>\<open>getOtaMessageType\<close>:
  \<^verbatim>\<open>for( ; stringIndex < topicFilterLength; stringIndex++ )
     { if( pTopicFilter[ stringIndex ] == '/' ) break; else fieldLength++; }\<close>
  The result is the pair \<open>(stringIndex, fieldLength)\<close> at loop exit. Inside the loop
  \<open>stringIndex < topicFilterLength \<le> 65535\<close>, so the 16-bit increments do not wrap.
\<close>

function scanField :: "char list \<Rightarrow> nat \<Rightarrow> nat \<Rightarrow> nat \<Rightarrow> fault + (nat \<times> nat)" where
  "scanField pTopicFilter topicFilterLength stringIndex fieldLength =
     (if stringIndex < topicFilterLength then
        (if stringIndex < length pTopicFilter then
           (if pTopicFilter ! stringIndex = CHR ''/'' then Inr (stringIndex, fieldLength)
            else scanField pTopicFilter topicFilterLength (stringIndex + 1) (fieldLength + 1))
         else Inl OutOfBounds)
      else Inr (stringIndex, fieldLength))"
  by pat_completeness auto
termination
  by (relation "measure (\<lambda>(p, len, si, fl). len - si)") auto

declare scanField.simps [simp del]

text \<open>
  The lookup loop over \<^verbatim>\<open>pOtaMessageStrings\<close>: the value of \<open>i\<close> at loop exit, the index
  of the first table entry that \<^verbatim>\<open>strncmp\<close> finds equal on \<open>fieldLength\<close> characters, or
  the table size.
\<close>

fun matchMessageString :: "char list \<Rightarrow> nat \<Rightarrow> char list list \<Rightarrow> nat \<Rightarrow> fault + nat" where
  "matchMessageString field fieldLength [] i = Inr i"
| "matchMessageString field fieldLength (s # ss) i =
     (case strncmp field s fieldLength of
        Inl f \<Rightarrow> Inl f
      | Inr r \<Rightarrow> if r = 0 then Inr i else matchMessageString field fieldLength ss (i + 1))"

text \<open>
  \<^verbatim>\<open>getOtaMessageType\<close>. \<open>democonfigCLIENT_IDENTIFIER\<close> is defined in a header that is not
  part of the file, so the thing name is the parameter \<open>clientId\<close>. \<open>stringIndex\<close> is a
  \<^verbatim>\<open>uint16_t\<close>: the increment after the thing name can wrap when the name ends at
  index 65535, which is written out.
\<close>

definition getOtaMessageType :: "string \<Rightarrow> char list \<Rightarrow> 16 word \<Rightarrow> fault + OtaMessageType" where
  "getOtaMessageType clientId pTopicFilter topicFilterLength =
     (case strncmp pTopicFilter (cstr OTA_TOPIC_PREFIX) OTA_TOPIC_PREFIX_LENGTH of
        Inl f \<Rightarrow> Inl f
      | Inr r \<Rightarrow>
          if r \<noteq> 0 then Inr OtaNumOfMessageType
          else
            (case scanField pTopicFilter (unat topicFilterLength) OTA_TOPIC_PREFIX_LENGTH 0 of
               Inl f \<Rightarrow> Inl f
             | Inr (stringIndex, fieldLength) \<Rightarrow>
                 if \<not> fieldLength > 0 then Inr OtaNumOfMessageType
                 else
                   (case strncmp (drop (stringIndex - fieldLength) pTopicFilter)
                                 (cstr clientId) fieldLength of
                      Inl f \<Rightarrow> Inl f
                    | Inr r2 \<Rightarrow>
                        if r2 \<noteq> 0 then Inr OtaNumOfMessageType
                        else
                          (case scanField pTopicFilter (unat topicFilterLength)
                                          ((stringIndex + 1) mod 65536) 0 of
                             Inl f \<Rightarrow> Inl f
                           | Inr (stringIndex2, fieldLength2) \<Rightarrow>
                               if \<not> fieldLength2 > 0 then Inr OtaNumOfMessageType
                               else
                                 (case matchMessageString
                                         (drop (stringIndex2 - fieldLength2) pTopicFilter)
                                         fieldLength2 pOtaMessageStrings 0 of
                                    Inl f \<Rightarrow> Inl f
                                  | Inr i \<Rightarrow>
                                      Inr (if i < length pOtaMessageStrings
                                           then OtaMessageType_of_index i
                                           else OtaNumOfMessageType))))))"

section \<open>External collaborators\<close>

text \<open>
  The MQTT agent, the jobs and JSON libraries, the OTA agent and the FreeRTOS kernel are
  outside the file. What the file calls is recorded in order in the field \<open>calls\<close> of the
  state; what a call returns is read from an environment of oracles. Of the enumerations
  declared in the libraries' headers, the model lists the enumerators the file names and
  one constructor for all others.
\<close>

datatype MQTTStatus =
  MQTTSuccess | MQTTBadParameter | MQTTSendFailed | MQTTRecvFailed | MQTTOtherStatus nat

datatype OtaMqttStatus =
  OtaMqttSuccess | OtaMqttPublishFailed | OtaMqttSubscribeFailed | OtaMqttUnsubscribeFailed

datatype JobsStatus = JobsSuccess | JobsOtherStatus nat

datatype JobsTopic =
  JobsNextJobChanged | JobsStartNextFailed | JobsDescribeSuccess | JobsUpdateSuccess
  | JobsUpdateFailed | JobsOtherTopic nat

datatype OtaEventId = OtaAgentEventReceivedJobDocument | OtaAgentEventReceivedFileBlock

datatype IncomingPubCallback = ProcessIncomingJobMessage | ProcessIncomingData

datatype LogLevel = LogError | LogWarn | LogInfo | LogDebug | ConfigPrintf

text \<open>The keys \<^verbatim>\<open>jobsexampleQUERY_KEY_FOR_...\<close> handed to \<^verbatim>\<open>JSON_Search\<close>.\<close>

datatype QueryKey =
  QUERY_KEY_FOR_ACTION | QUERY_KEY_FOR_MESSAGE | QUERY_KEY_FOR_TOPIC
  | QUERY_KEY_FOR_JOB_ID | QUERY_KEY_FOR_JOBS_DOC

record MQTTPublishInfo =
  qos :: nat
  pTopicName :: "char list"
  topicNameLength :: nat
  pPayload :: "char list option"
  payloadLength :: nat

definition MQTTQoS1 :: nat where
  "MQTTQoS1 = 1"

record OtaEventData =
  data :: "char list"
  dataLength :: nat
  bufferUsed :: bool

datatype call =
    Log LogLevel
  | AgentPublish MQTTPublishInfo
  | AgentSubscribe "char list" nat nat IncomingPubCallback
  | AgentUnsubscribe "char list" nat nat
  | AgentTerminate
  | PublishToTopic "char list" nat "char list" nat
  | SignalEvent OtaEventId nat

text \<open>
  The oracles. \<open>xSemaphoreTake\<close>: whether the pool mutex is obtained.
  \<open>xTaskNotifyWait\<close>: \<open>None\<close> when the wait for the completion notification times out
  (\<^verbatim>\<open>result != pdTRUE\<close>), \<open>Some v\<close> for the notified value read as an \<^verbatim>\<open>MQTTStatus_t\<close>.
  \<open>JSON_Search\<close>: \<open>None\<close> for any status but \<^verbatim>\<open>JSONSuccess\<close>, otherwise the pointer to the
  value inside the document and the value's length. \<open>Jobs_Update\<close>: the topic string and
  its length when the status is \<^verbatim>\<open>JobsSuccess\<close>. \<open>Jobs_MatchTopic\<close>: status, topic type,
  \<open>pJobId\<close> and \<open>jobIdLength\<close>; a NULL \<open>pJobId\<close> is the empty list, through which every
  read is out of bounds.
\<close>

record env =
  xSemaphoreTake :: bool
  xTaskNotifyWait :: "MQTTStatus option"
  MQTTAgent_Publish :: "MQTTPublishInfo \<Rightarrow> MQTTStatus"
  MQTTAgent_Subscribe :: "char list \<Rightarrow> nat \<Rightarrow> nat \<Rightarrow> MQTTStatus"
  MQTTAgent_Unsubscribe :: "char list \<Rightarrow> nat \<Rightarrow> nat \<Rightarrow> MQTTStatus"
  xPublishToTopic :: "char list \<Rightarrow> nat \<Rightarrow> char list \<Rightarrow> nat \<Rightarrow> bool"
  JSON_Validate :: "char list \<Rightarrow> nat \<Rightarrow> bool"
  JSON_Search :: "char list \<Rightarrow> nat \<Rightarrow> QueryKey \<Rightarrow> (char list \<times> nat) option"
  Jobs_Update :: "string \<Rightarrow> char list \<Rightarrow> nat \<Rightarrow> (char list \<times> nat) option"
  Jobs_MatchTopic :: "char list \<Rightarrow> nat \<Rightarrow> string \<Rightarrow> JobsStatus \<times> JobsTopic \<times> char list \<times> nat"

text \<open>Macros of \<^verbatim>\<open>demo_config.h\<close>, \<^verbatim>\<open>ota_config.h\<close> and \<^verbatim>\<open>jobs.h\<close> that the file uses.\<close>

record config =
  democonfigCLIENT_IDENTIFIER :: string
  OTA_DATA_BLOCK_SIZE :: nat
  JOBS_JOBID_MAX_LENGTH :: nat

text \<open>
  The mutable globals of the file. The pool size \<^verbatim>\<open>otaconfigMAX_NUM_OTA_DATA_BUFFERS\<close> is
  the length of \<open>eventBuffer\<close>.
\<close>

record demo_state =
  eventBuffer :: "OtaEventData list"
  xDemoEncounteredError :: bool
  xExitActionJobReceived :: bool
  usJobIdBuffer :: "char list"
  usJobsDocumentBuffer :: "char list"
  calls :: "call list"

definition do_call :: "call \<Rightarrow> demo_state \<Rightarrow> demo_state" where
  "do_call c s = s\<lparr>calls := calls s @ [c]\<rparr>"

text \<open>\<^verbatim>\<open>strlen\<close>: the number of characters before the first NUL.\<close>

definition strlen :: "char list \<Rightarrow> fault + nat" where
  "strlen p =
     (if NUL \<in> set p then Inr (length (takeWhile (\<lambda>c. c \<noteq> NUL) p)) else Inl OutOfBounds)"

text \<open>\<^verbatim>\<open>memcpy(dst, src, n)\<close>: the destination object after the copy.\<close>

definition memcpy :: "char list \<Rightarrow> char list \<Rightarrow> nat \<Rightarrow> fault + char list" where
  "memcpy dst src n =
     (if n \<le> length dst \<and> n \<le> length src then Inr (take n src @ drop n dst)
      else Inl OutOfBounds)"

section \<open>Event buffer pool\<close>

text \<open>
  A pointer into the pool is the index of its slot. \<^verbatim>\<open>prvOTAEventBufferFree\<close> clears the
  flag of the slot it is given, under the mutex, with no other check.
\<close>

definition prvOTAEventBufferFree :: "env \<Rightarrow> nat \<Rightarrow> demo_state \<Rightarrow> fault + demo_state" where
  "prvOTAEventBufferFree e pxBuffer s =
     (if xSemaphoreTake e then
        (if pxBuffer < length (eventBuffer s) then
           Inr (s\<lparr>eventBuffer :=
                    (eventBuffer s)[pxBuffer := (eventBuffer s ! pxBuffer)\<lparr>bufferUsed := False\<rparr>]\<rparr>)
         else Inl OutOfBounds)
      else Inr (do_call (Log LogError) s))"

text \<open>
  The scan of \<^verbatim>\<open>prvOTAEventBufferGet\<close>:
  \<^verbatim>\<open>for( ulIndex = 0; ulIndex < otaconfigMAX_NUM_OTA_DATA_BUFFERS; ulIndex++ )\<close>,
  returning \<open>pFreeBuffer\<close> and the array.
\<close>

function bufferScan :: "OtaEventData list \<Rightarrow> nat \<Rightarrow> nat option \<times> OtaEventData list" where
  "bufferScan eb ulIndex =
     (if ulIndex < length eb then
        (if bufferUsed (eb ! ulIndex) = False then
           (Some ulIndex, eb[ulIndex := (eb ! ulIndex)\<lparr>bufferUsed := True\<rparr>])
         else bufferScan eb (ulIndex + 1))
      else (None, eb))"
  by pat_completeness auto
termination
  by (relation "measure (\<lambda>(eb, i). length eb - i)") auto

declare bufferScan.simps [simp del]

definition prvOTAEventBufferGet :: "env \<Rightarrow> demo_state \<Rightarrow> nat option \<times> demo_state" where
  "prvOTAEventBufferGet e s =
     (if xSemaphoreTake e then
        (case bufferScan (eventBuffer s) 0 of
           (pFreeBuffer, eb) \<Rightarrow> (pFreeBuffer, s\<lparr>eventBuffer := eb\<rparr>))
      else (None, do_call (Log LogError) s))"

section \<open>Blocking wrappers around the MQTT agent\<close>

text \<open>
  Each wrapper enqueues one command and, when the enqueue succeeds, waits for the
  notification. \<open>await_subscribe\<close> is the wait of \<^verbatim>\<open>prvSubscribeToTopic\<close> and
  \<^verbatim>\<open>prvUnSubscribeFromTopic\<close>, \<open>await_publish\<close> the wait of \<^verbatim>\<open>prvMQTTPublish\<close> and
  \<^verbatim>\<open>prvSendUpdateForJob\<close>: the value of \<open>mqttStatus\<close> after the \<^verbatim>\<open>if\<close> that follows
  the enqueue. The calls to the scheduler that only name or clear the waiting task have
  no effect on the state of the model.
\<close>

definition await_subscribe :: "env \<Rightarrow> MQTTStatus \<Rightarrow> MQTTStatus" where
  "await_subscribe e mqttStatus =
     (if mqttStatus = MQTTSuccess then
        (case xTaskNotifyWait e of
           Some ulNotifiedValue \<Rightarrow> ulNotifiedValue
         | None \<Rightarrow> MQTTRecvFailed)
      else mqttStatus)"

definition await_publish :: "env \<Rightarrow> MQTTStatus \<Rightarrow> MQTTStatus" where
  "await_publish e mqttStatus =
     (if mqttStatus = MQTTSuccess then
        (case xTaskNotifyWait e of
           None \<Rightarrow> MQTTSendFailed
         | Some ulNotifiedValue \<Rightarrow> ulNotifiedValue)
      else mqttStatus)"

definition prvSubscribeToTopic ::
  "env \<Rightarrow> nat \<Rightarrow> char list \<Rightarrow> IncomingPubCallback \<Rightarrow> demo_state
     \<Rightarrow> fault + (MQTTStatus \<times> demo_state)" where
  "prvSubscribeToTopic e xQoS pcTopicFilter pCallback s =
     (case strlen pcTopicFilter of
        Inl f \<Rightarrow> Inl f
      | Inr n \<Rightarrow>
          (let topicFilterLength = n mod 65536;
               s1 = do_call (Log LogInfo) s;
               s2 = do_call (AgentSubscribe pcTopicFilter topicFilterLength xQoS pCallback) s1;
               mqttStatus = MQTTAgent_Subscribe e pcTopicFilter topicFilterLength xQoS
           in Inr (await_subscribe e mqttStatus, s2)))"

definition otaMessageCallback :: "IncomingPubCallback list" where
  "otaMessageCallback = [ProcessIncomingJobMessage, ProcessIncomingData]"

definition index_of_OtaMessageType :: "OtaMessageType \<Rightarrow> nat" where
  "index_of_OtaMessageType m =
     (case m of OtaMessageTypeJob \<Rightarrow> 0 | OtaMessageTypeStream \<Rightarrow> 1 | OtaNumOfMessageType \<Rightarrow> 2)"

definition prvMQTTSubscribe ::
  "env \<Rightarrow> config \<Rightarrow> char list option \<Rightarrow> 16 word \<Rightarrow> nat \<Rightarrow> demo_state
     \<Rightarrow> fault + (OtaMqttStatus \<times> demo_state)" where
  "prvMQTTSubscribe e cfg pTopicFilter topicFilterLength ucQoS s =
     (case pTopicFilter of
        None \<Rightarrow> Inl AssertFailed
      | Some p \<Rightarrow>
          if \<not> unat topicFilterLength > 0 then Inl AssertFailed
          else
            (case getOtaMessageType (democonfigCLIENT_IDENTIFIER cfg) p topicFilterLength of
               Inl f \<Rightarrow> Inl f
             | Inr otaMessageType \<Rightarrow>
                 if \<not> index_of_OtaMessageType otaMessageType
                        < index_of_OtaMessageType OtaNumOfMessageType
                 then Inl AssertFailed
                 else
                   (case prvSubscribeToTopic e ucQoS p
                           (otaMessageCallback ! index_of_OtaMessageType otaMessageType) s of
                      Inl f \<Rightarrow> Inl f
                    | Inr (mqttStatus, s1) \<Rightarrow>
                        if mqttStatus \<noteq> MQTTSuccess
                        then Inr (OtaMqttSubscribeFailed, do_call (Log LogError) s1)
                        else Inr (OtaMqttSuccess, do_call (Log LogInfo) s1))))"

definition prvMQTTPublish ::
  "env \<Rightarrow> char list \<Rightarrow> nat \<Rightarrow> char list \<Rightarrow> nat \<Rightarrow> nat \<Rightarrow> demo_state
     \<Rightarrow> OtaMqttStatus \<times> demo_state" where
  "prvMQTTPublish e pacTopic topicLen pMsg msgSize qosArg s =
     (let publishInfo = \<lparr>qos = qosArg, pTopicName = pacTopic, topicNameLength = topicLen,
                          pPayload = Some pMsg, payloadLength = msgSize\<rparr>;
          s1 = do_call (AgentPublish publishInfo) s;
          mqttStatus = await_publish e (MQTTAgent_Publish e publishInfo)
      in if mqttStatus \<noteq> MQTTSuccess
         then (OtaMqttPublishFailed, do_call (Log LogError) s1)
         else (OtaMqttSuccess, do_call (Log LogInfo) s1))"

definition prvUnSubscribeFromTopic ::
  "env \<Rightarrow> nat \<Rightarrow> char list \<Rightarrow> demo_state \<Rightarrow> fault + (MQTTStatus \<times> demo_state)" where
  "prvUnSubscribeFromTopic e xQoS pcTopicFilter s =
     (case strlen pcTopicFilter of
        Inl f \<Rightarrow> Inl f
      | Inr n \<Rightarrow>
          (let topicFilterLength = n mod 65536;
               s1 = do_call (Log LogInfo) s;
               s2 = do_call (AgentUnsubscribe pcTopicFilter topicFilterLength xQoS) s1;
               mqttStatus = MQTTAgent_Unsubscribe e pcTopicFilter topicFilterLength xQoS
           in Inr (await_subscribe e mqttStatus, s2)))"

definition prvMQTTUnsubscribe ::
  "env \<Rightarrow> char list option \<Rightarrow> 16 word \<Rightarrow> nat \<Rightarrow> demo_state
     \<Rightarrow> fault + (OtaMqttStatus \<times> demo_state)" where
  "prvMQTTUnsubscribe e pTopicFilter topicFilterLength ucQoS s =
     (case pTopicFilter of
        None \<Rightarrow> Inl AssertFailed
      | Some p \<Rightarrow>
          if \<not> unat topicFilterLength > 0 then Inl AssertFailed
          else
            (case prvUnSubscribeFromTopic e ucQoS p s of
               Inl f \<Rightarrow> Inl f
             | Inr (mqttStatus, s1) \<Rightarrow>
                 if mqttStatus \<noteq> MQTTSuccess
                 then Inr (OtaMqttUnsubscribeFailed, do_call (Log LogError) s1)
                 else Inr (OtaMqttSuccess, do_call (Log LogInfo) s1)))"

section \<open>Job action dispatcher\<close>

datatype JobActionType =
  JOB_ACTION_PRINT | JOB_ACTION_PUBLISH | JOB_ACTION_EXIT | JOB_ACTION_UNKNOWN

definition prvGetAction :: "char list option \<Rightarrow> nat \<Rightarrow> fault + JobActionType" where
  "prvGetAction pcAction xActionLength =
     (case pcAction of
        None \<Rightarrow> Inl AssertFailed
      | Some p \<Rightarrow>
          (case strncmp p (cstr ''print'') xActionLength of
             Inl f \<Rightarrow> Inl f
           | Inr r1 \<Rightarrow>
               if r1 = 0 then Inr JOB_ACTION_PRINT
               else
                 (case strncmp p (cstr ''publish'') xActionLength of
                    Inl f \<Rightarrow> Inl f
                  | Inr r2 \<Rightarrow>
                      if r2 = 0 then Inr JOB_ACTION_PUBLISH
                      else
                        (case strncmp p (cstr ''exit'') xActionLength of
                           Inl f \<Rightarrow> Inl f
                         | Inr r3 \<Rightarrow>
                             if r3 = 0 then Inr JOB_ACTION_EXIT
                             else Inr JOB_ACTION_UNKNOWN))))"

text \<open>
  Modelled from the spec: the macro \<^verbatim>\<open>MAKE_STATUS_REPORT\<close> is defined outside the file;
  the spec describes the payload as a small JSON-like object with a status field valued
  "SUCCEEDED" or "FAILED".
\<close>

definition MAKE_STATUS_REPORT :: "string \<Rightarrow> char list" where
  "MAKE_STATUS_REPORT x =
     cstr ([CHR ''{'', CHR 0x22] @ ''status'' @ [CHR 0x22, CHR '':'', CHR 0x22] @ x
           @ [CHR 0x22, CHR ''}''])"

text \<open>
  \<^verbatim>\<open>prvSendUpdateForJob\<close>: builds the update topic and enqueues the status report at QoS 1.
  The status of the publish, \<open>await_publish e (MQTTAgent_Publish e publishInfo)\<close>, is
  assigned to a local and not used.
\<close>

definition prvSendUpdateForJob ::
  "env \<Rightarrow> config \<Rightarrow> char list option \<Rightarrow> nat \<Rightarrow> char list option \<Rightarrow> demo_state
     \<Rightarrow> fault + demo_state" where
  "prvSendUpdateForJob e cfg pcJobId usJobIdLength pcJobStatusReport s =
     (case pcJobId of
        None \<Rightarrow> Inl AssertFailed
      | Some jobId \<Rightarrow>
          if \<not> usJobIdLength > 0 then Inl AssertFailed
          else
            (case pcJobStatusReport of
               None \<Rightarrow> Inl AssertFailed
             | Some report \<Rightarrow>
                 (case Jobs_Update e (democonfigCLIENT_IDENTIFIER cfg) jobId usJobIdLength of
                    Some (pUpdateJobTopic, ulTopicLength) \<Rightarrow>
                      (case strlen report of
                         Inl f \<Rightarrow> Inl f
                       | Inr n \<Rightarrow>
                           Inr (do_call
                                  (AgentPublish
                                     \<lparr>qos = MQTTQoS1, pTopicName = pUpdateJobTopic,
                                      topicNameLength = ulTopicLength mod 65536,
                                      pPayload = Some report, payloadLength = n\<rparr>) s))
                  | None \<Rightarrow> Inr (do_call (Log LogError) s))))"

definition prvProcessJobDocument ::
  "env \<Rightarrow> config \<Rightarrow> char list option \<Rightarrow> nat \<Rightarrow> char list option \<Rightarrow> nat \<Rightarrow> demo_state
     \<Rightarrow> fault + demo_state" where
  "prvProcessJobDocument e cfg pcJobId usJobIdLength pcJobDocument jobDocumentLength s =
     (if pcJobId = None then Inl AssertFailed
      else if \<not> usJobIdLength > 0 then Inl AssertFailed
      else
        (case pcJobDocument of
           None \<Rightarrow> Inl AssertFailed
         | Some doc \<Rightarrow>
             if \<not> jobDocumentLength > 0 then Inl AssertFailed
             else
               (case JSON_Search e doc jobDocumentLength QUERY_KEY_FOR_ACTION of
                  None \<Rightarrow>
                    prvSendUpdateForJob e cfg pcJobId usJobIdLength
                      (Some (MAKE_STATUS_REPORT ''FAILED'')) (do_call (Log LogError) s)
                | Some (pcAction, uActionLength) \<Rightarrow>
                    (case prvGetAction (Some pcAction) uActionLength of
                       Inl f \<Rightarrow> Inl f
                     | Inr JOB_ACTION_EXIT \<Rightarrow>
                         (case prvSendUpdateForJob e cfg pcJobId usJobIdLength
                                 (Some (MAKE_STATUS_REPORT ''SUCCEEDED''))
                                 ((do_call (Log LogInfo) s)\<lparr>xExitActionJobReceived := True\<rparr>) of
                            Inl f \<Rightarrow> Inl f
                          | Inr s1 \<Rightarrow> Inr (do_call AgentTerminate s1))
                     | Inr JOB_ACTION_PRINT \<Rightarrow>
                         (case JSON_Search e doc jobDocumentLength QUERY_KEY_FOR_MESSAGE of
                            Some (pcMessage, ulMessageLength) \<Rightarrow>
                              prvSendUpdateForJob e cfg pcJobId usJobIdLength
                                (Some (MAKE_STATUS_REPORT ''SUCCEEDED''))
                                (do_call (Log LogInfo) (do_call (Log LogInfo) s))
                          | None \<Rightarrow>
                              prvSendUpdateForJob e cfg pcJobId usJobIdLength
                                (Some (MAKE_STATUS_REPORT ''FAILED''))
                                (do_call (Log LogError) (do_call (Log LogInfo) s)))
                     | Inr JOB_ACTION_PUBLISH \<Rightarrow>
                         (case JSON_Search e doc jobDocumentLength QUERY_KEY_FOR_TOPIC of
                            None \<Rightarrow>
                              prvSendUpdateForJob e cfg pcJobId usJobIdLength
                                (Some (MAKE_STATUS_REPORT ''FAILED''))
                                (do_call (Log LogError) (do_call (Log LogInfo) s))
                          | Some (pcTopic, ulTopicLength) \<Rightarrow>
                              (case JSON_Search e doc jobDocumentLength QUERY_KEY_FOR_MESSAGE of
                                 Some (pcMessage, ulMessageLength) \<Rightarrow>
                                   (let s1 = do_call (PublishToTopic pcTopic ulTopicLength
                                                        pcMessage ulMessageLength)
                                               (do_call (Log LogInfo) s);
                                        s2 = (if xPublishToTopic e pcTopic ulTopicLength
                                                    pcMessage ulMessageLength = False
                                              then do_call (Log LogError)
                                                     (s1\<lparr>xDemoEncounteredError := True\<rparr>)
                                              else s1)
                                    in prvSendUpdateForJob e cfg pcJobId usJobIdLength
                                         (Some (MAKE_STATUS_REPORT ''SUCCEEDED'')) s2)
                               | None \<Rightarrow>
                                   prvSendUpdateForJob e cfg pcJobId usJobIdLength
                                     (Some (MAKE_STATUS_REPORT ''FAILED''))
                                     (do_call (Log LogError) (do_call (Log LogInfo) s))))
                     | Inr JOB_ACTION_UNKNOWN \<Rightarrow> Inr (do_call (Log ConfigPrintf) s)))))"

text \<open>
  \<^verbatim>\<open>prvNextJobHandler\<close>: copies the job id and the job document out of the payload into
  the two global buffers and hands them to the dispatcher. The lengths are narrowed to
  \<^verbatim>\<open>uint16_t\<close> at the call.
\<close>

definition prvNextJobHandler ::
  "env \<Rightarrow> config \<Rightarrow> MQTTPublishInfo option \<Rightarrow> demo_state \<Rightarrow> fault + demo_state" where
  "prvNextJobHandler e cfg pxPublishInfo s =
     (case pxPublishInfo of
        None \<Rightarrow> Inl AssertFailed
      | Some info \<Rightarrow>
          (case pPayload info of
             None \<Rightarrow> Inl AssertFailed
           | Some payload \<Rightarrow>
               if \<not> payloadLength info > 0 then Inl AssertFailed
               else if \<not> JSON_Validate e payload (payloadLength info)
               then Inr (do_call (Log LogError) s)
               else
                 (case JSON_Search e payload (payloadLength info) QUERY_KEY_FOR_JOB_ID of
                    None \<Rightarrow> Inr (do_call (Log LogWarn) s)
                  | Some (pcJobId, ulJobIdLength) \<Rightarrow>
                      if \<not> ulJobIdLength < JOBS_JOBID_MAX_LENGTH cfg then Inl AssertFailed
                      else
                        (case memcpy (usJobIdBuffer s) pcJobId ulJobIdLength of
                           Inl f \<Rightarrow> Inl f
                         | Inr idBuf \<Rightarrow>
                             (let s1 = (do_call (Log LogInfo) s)\<lparr>usJobIdBuffer := idBuf\<rparr> in
                              case JSON_Search e payload (payloadLength info)
                                     QUERY_KEY_FOR_JOBS_DOC of
                                None \<Rightarrow> Inr (do_call (Log LogWarn) s1)
                              | Some (pcJobDocLoc, ulJobDocLength) \<Rightarrow>
                                  (case memcpy (usJobsDocumentBuffer s1) pcJobDocLoc
                                          ulJobDocLength of
                                     Inl f \<Rightarrow> Inl f
                                   | Inr docBuf \<Rightarrow>
                                       prvProcessJobDocument e cfg
                                         (Some idBuf) (ulJobIdLength mod 65536)
                                         (Some docBuf) (ulJobDocLength mod 65536)
                                         (s1\<lparr>usJobsDocumentBuffer := docBuf\<rparr>)))))))"

section \<open>Inbound job message callback\<close>

text \<open>
  \<^verbatim>\<open>prvProcessIncomingJobMessage\<close>. The test for an OTA job is
  \<^verbatim>\<open>if( strncmp( pJobId, "AFR_OTA", ( strlen( "AFR_OTA" ) == 0 ) ) )\<close>: the third argument
  is the value of the comparison \<^verbatim>\<open>strlen( "AFR_OTA" ) == 0\<close>, and the branch is taken
  when \<^verbatim>\<open>strncmp\<close> returns a value other than zero.
\<close>

definition prvProcessIncomingJobMessage ::
  "env \<Rightarrow> config \<Rightarrow> MQTTPublishInfo option \<Rightarrow> demo_state \<Rightarrow> fault + demo_state" where
  "prvProcessIncomingJobMessage e cfg pPublishInfo s =
     (case pPublishInfo of
        None \<Rightarrow> Inl AssertFailed
      | Some info \<Rightarrow>
          (let s0 = do_call (Log LogInfo) s in
           if \<not> payloadLength info \<le> OTA_DATA_BLOCK_SIZE cfg then Inl AssertFailed
           else
             (case Jobs_MatchTopic e (pTopicName info) (topicNameLength info)
                     (democonfigCLIENT_IDENTIFIER cfg) of
                (status, api, pJobId, jobIdLength) \<Rightarrow>
                  if status \<noteq> JobsSuccess then Inl AssertFailed
                  else
                    (case strncmp pJobId (cstr ''AFR_OTA'')
                            (if length ''AFR_OTA'' = 0 then 1 else 0) of
                       Inl f \<Rightarrow> Inl f
                     | Inr r \<Rightarrow>
                         if r \<noteq> 0 then
                           (case prvOTAEventBufferGet e s0 of
                              (Some pData, s1) \<Rightarrow>
                                (case pPayload info of
                                   None \<Rightarrow> Inl OutOfBounds
                                 | Some payload \<Rightarrow>
                                     (case memcpy (data (eventBuffer s1 ! pData)) payload
                                             (payloadLength info) of
                                        Inl f \<Rightarrow> Inl f
                                      | Inr d \<Rightarrow>
                                          Inr (do_call
                                                 (SignalEvent OtaAgentEventReceivedJobDocument pData)
                                                 (s1\<lparr>eventBuffer :=
                                                       (eventBuffer s1)
                                                         [pData := (eventBuffer s1 ! pData)
                                                            \<lparr>data := d,
                                                             dataLength := payloadLength info\<rparr>]\<rparr>))))
                            | (None, s1) \<Rightarrow> Inr (do_call (Log LogError) s1))
                         else if api = JobsDescribeSuccess \<or> api = JobsNextJobChanged
                         then prvNextJobHandler e cfg (Some info) s0
                         else if api = JobsUpdateSuccess then Inr (do_call (Log LogInfo) s0)
                         else if api = JobsStartNextFailed then Inr (do_call (Log LogWarn) s0)
                         else if api = JobsUpdateFailed
                         then Inr (do_call (Log LogError) (do_call (Log LogWarn) s0))
                         else Inr (do_call (Log LogWarn) s0)))))"

section \<open>Sample inputs\<close>

text \<open>
  Concrete inputs at which the theorems below are instantiated: a two-slot pool with both
  slots free, an agent that accepts every command and never notifies, a relay publish
  that fails, and a job document whose action is \<open>publish\<close>.
\<close>

definition sample_search :: "char list \<Rightarrow> nat \<Rightarrow> QueryKey \<Rightarrow> (char list \<times> nat) option" where
  "sample_search doc len key =
     (case key of
        QUERY_KEY_FOR_ACTION \<Rightarrow> Some (''publish'', 7)
      | QUERY_KEY_FOR_MESSAGE \<Rightarrow> Some (''hello'', 5)
      | QUERY_KEY_FOR_TOPIC \<Rightarrow> Some (''a/b'', 3)
      | QUERY_KEY_FOR_JOB_ID \<Rightarrow> Some (''job1'', 4)
      | QUERY_KEY_FOR_JOBS_DOC \<Rightarrow> Some (''doc'', 3))"

definition sample_env :: env where
  "sample_env =
     \<lparr>xSemaphoreTake = True,
      xTaskNotifyWait = None,
      MQTTAgent_Publish = (\<lambda>info. MQTTSuccess),
      MQTTAgent_Subscribe = (\<lambda>filter len q. MQTTSuccess),
      MQTTAgent_Unsubscribe = (\<lambda>filter len q. MQTTSuccess),
      xPublishToTopic = (\<lambda>topic tlen msg mlen. False),
      JSON_Validate = (\<lambda>doc len. True),
      JSON_Search = sample_search,
      Jobs_Update = (\<lambda>thing jobId n. Some (cstr ''$aws/things/thing/jobs/job1/update'', 34)),
      Jobs_MatchTopic =
        (\<lambda>topic len thing. (JobsSuccess, JobsUpdateSuccess, ''AFR_OTA-1/update/accepted'', 9))\<rparr>"

definition sample_config :: config where
  "sample_config =
     \<lparr>democonfigCLIENT_IDENTIFIER = ''thing'', OTA_DATA_BLOCK_SIZE = 8,
      JOBS_JOBID_MAX_LENGTH = 64\<rparr>"

definition free_slot :: OtaEventData where
  "free_slot = \<lparr>data = replicate 8 NUL, dataLength = 0, bufferUsed = False\<rparr>"

definition sample_state :: demo_state where
  "sample_state =
     \<lparr>eventBuffer = [free_slot, free_slot],
      xDemoEncounteredError = False,
      xExitActionJobReceived = False,
      usJobIdBuffer = replicate 64 NUL,
      usJobsDocumentBuffer = replicate 64 NUL,
      calls = []\<rparr>"

section \<open>Observations\<close>

text \<open>
  What the properties of the inbound callback observe of two states: the pool is the
  same, and the same events have been signalled to the OTA agent.
\<close>

definition pool_untouched :: "demo_state \<Rightarrow> demo_state \<Rightarrow> bool" where
  "pool_untouched s s' \<longleftrightarrow>
     eventBuffer s' = eventBuffer s
     \<and> filter (\<lambda>c. case c of SignalEvent ev b \<Rightarrow> True | _ \<Rightarrow> False) (calls s')
         = filter (\<lambda>c. case c of SignalEvent ev b \<Rightarrow> True | _ \<Rightarrow> False) (calls s)"

section \<open>Properties of the string primitives\<close>

lemma strncmp_Cons:
  "strncmp (a # s1) (b # s2) n =
     (if n = 0 then Inr 0
      else if a \<noteq> b then Inr (int (of_char a) - int (of_char b))
      else if a = NUL then Inr 0
      else strncmp s1 s2 (n - 1))"
  by (cases n) auto

lemma strncmp_terminated:
  "NUL \<in> set s1 \<Longrightarrow> NUL \<in> set s2 \<Longrightarrow> \<exists>v. strncmp s1 s2 n = Inr v"
  by (induction s1 s2 n rule: strncmp.induct) auto

lemma strncmp_within:
  "n \<le> length s1 \<Longrightarrow> NUL \<in> set s2 \<Longrightarrow> \<exists>v. strncmp s1 s2 n = Inr v"
  by (induction s1 s2 n rule: strncmp.induct) auto

lemma strncmp_zero_iff:
  "NUL \<notin> set t \<Longrightarrow> NUL \<notin> set c \<Longrightarrow>
   strncmp (t @ NUL # r1) (c @ NUL # r2) n = Inr v \<Longrightarrow> (v = 0 \<longleftrightarrow> take n t = take n c)"
proof (induction t arbitrary: c n v)
  case Nil
  then show ?case by (cases n; cases c) (auto split: if_splits)
next
  case (Cons a t)
  then show ?case by (cases n; cases c) (auto split: if_splits)
qed

lemma strncmp_same:
  "NUL \<notin> set a \<Longrightarrow> strncmp (a @ r1) (a @ r2) (length a) = Inr 0"
  by (induction a) auto

text \<open>
  Comparing the first \<open>n\<close> bytes behind a pointer with a keyword: the result is zero
  exactly when those bytes are the first \<open>n\<close> characters of the keyword.
\<close>

lemma strncmp_keyword:
  "n \<le> length p \<Longrightarrow> NUL \<notin> set (take n p) \<Longrightarrow> NUL \<notin> set c \<Longrightarrow>
   \<exists>v. strncmp p (cstr c) n = Inr v \<and> (v = 0 \<longleftrightarrow> n \<le> length c \<and> take n p = take n c)"
proof (induction p arbitrary: n c)
  case Nil
  then show ?case by simp
next
  case (Cons a p)
  show ?case
  proof (cases n)
    case 0
    then show ?thesis by simp
  next
    case (Suc m)
    then have a: "a \<noteq> NUL" using Cons.prems(2) by auto
    show ?thesis
    proof (cases c)
      case Nil
      then show ?thesis using Suc a by (simp add: cstr_def)
    next
      case (Cons b c')
      have ih: "\<exists>v. strncmp p (cstr c') m = Inr v
                  \<and> (v = 0 \<longleftrightarrow> m \<le> length c' \<and> take m p = take m c')"
        using Cons.IH[of m c'] Cons.prems Suc Cons by simp
      show ?thesis
      proof (cases "a = b")
        case True
        then show ?thesis using ih Suc Cons a by (simp add: cstr_def)
      next
        case False
        then show ?thesis using Suc Cons by (simp add: cstr_def)
      qed
    qed
  qed
qed

section \<open>Properties of the topic classifier\<close>

lemma scanField_past:
  "len \<le> si \<Longrightarrow> scanField p len si fl = Inr (si, fl)"
  by (simp add: scanField.simps)

lemma scanField_cstr:
  "si \<le> length t \<Longrightarrow>
   scanField (cstr t) (length t) si fl =
     Inr (si + length (takeWhile (\<lambda>c. c \<noteq> CHR ''/'') (drop si t)),
          fl + length (takeWhile (\<lambda>c. c \<noteq> CHR ''/'') (drop si t)))"
proof (induction "length t - si" arbitrary: si fl)
  case 0
  then show ?case by (simp add: scanField.simps)
next
  case (Suc k)
  then have lt: "si < length t" by simp
  then have d: "drop si t = t ! si # drop (Suc si) t"
    by (simp add: Cons_nth_drop_Suc)
  have nth: "cstr t ! si = t ! si" using lt by (simp add: cstr_def nth_append)
  have ih: "scanField (cstr t) (length t) (Suc si) (Suc fl) =
     Inr (Suc si + length (takeWhile (\<lambda>c. c \<noteq> CHR ''/'') (drop (Suc si) t)),
          Suc fl + length (takeWhile (\<lambda>c. c \<noteq> CHR ''/'') (drop (Suc si) t)))"
    using Suc.hyps(1)[of "Suc si" "Suc fl"] Suc.hyps(2) lt by simp
  show ?case
    using lt nth ih by (subst scanField.simps) (simp add: d cstr_def)
qed

lemma prefix_length: "OTA_TOPIC_PREFIX_LENGTH = 12"
  by (simp add: OTA_TOPIC_PREFIX_LENGTH_def OTA_TOPIC_PREFIX_def cstr_def)

lemma NUL_notin_prefix: "NUL \<notin> set OTA_TOPIC_PREFIX"
  by (simp add: OTA_TOPIC_PREFIX_def NUL_def)

lemma prefix_check:
  assumes "NUL \<notin> set t"
  shows "\<exists>v. strncmp (cstr t) (cstr OTA_TOPIC_PREFIX) 12 = Inr v \<and>
             (v = 0 \<longleftrightarrow> take 12 t = OTA_TOPIC_PREFIX)"
proof -
  obtain v where v: "strncmp (cstr t) (cstr OTA_TOPIC_PREFIX) 12 = Inr v"
    using strncmp_terminated[of "cstr t" "cstr OTA_TOPIC_PREFIX" 12] by (auto simp: cstr_def)
  have "v = 0 \<longleftrightarrow> take 12 t = take 12 OTA_TOPIC_PREFIX"
    using strncmp_zero_iff[OF assms NUL_notin_prefix, of "[]" "[]" 12 v] v
    by (simp add: cstr_def)
  then show ?thesis using v by (simp add: OTA_TOPIC_PREFIX_def)
qed

lemma classify_no_prefix:
  assumes "NUL \<notin> set t" and "take 12 t \<noteq> OTA_TOPIC_PREFIX"
  shows "getOtaMessageType clientId (cstr t) w = Inr OtaNumOfMessageType"
proof -
  obtain v where "strncmp (cstr t) (cstr OTA_TOPIC_PREFIX) 12 = Inr v" "v \<noteq> 0"
    using prefix_check[OF assms(1)] assms(2) by auto
  then show ?thesis by (simp add: getOtaMessageType_def prefix_length)
qed

lemma takeWhile_segment:
  "CHR ''/'' \<notin> set name \<Longrightarrow> rest = [] \<or> hd rest = CHR ''/'' \<Longrightarrow>
   takeWhile (\<lambda>c. c \<noteq> CHR ''/'') (name @ rest) = name"
  by (cases rest) (auto simp: takeWhile_append)

text \<open>
  When the thing name ends at index 65535 the 16-bit index wraps to 0 and the second scan
  reads the topic from its start: the field it finds is \<open>$aws\<close>, which is no keyword.
\<close>

lemma wrapped_scan:
  assumes "length t = 65535" and "take 12 t = OTA_TOPIC_PREFIX"
  shows "scanField (cstr t) (length t) 0 0 = Inr (4, 4)"
proof -
  obtain r where t: "t = OTA_TOPIC_PREFIX @ r"
    using assms(2) by (metis append_take_drop_id)
  have "takeWhile (\<lambda>c. c \<noteq> CHR ''/'') (drop 0 t) = ''$aws''"
    by (simp add: t OTA_TOPIC_PREFIX_def)
  then show ?thesis using scanField_cstr[of 0 t 0] by simp
qed

lemma wrapped_match:
  assumes "take 12 t = OTA_TOPIC_PREFIX"
  shows "matchMessageString (cstr t) 4 pOtaMessageStrings 0 = Inr 2"
proof -
  obtain r where t: "t = OTA_TOPIC_PREFIX @ r"
    using assms by (metis append_take_drop_id)
  show ?thesis
    by (simp add: t pOtaMessageStrings_def OTA_TOPIC_PREFIX_def OTA_TOPIC_JOBS_def
      OTA_TOPIC_STREAM_def cstr_def strncmp_Cons)
qed

lemma classify_empty_field:
  assumes nul: "NUL \<notin> set t" and len: "length t < 65536"
    and t: "t = OTA_TOPIC_PREFIX @ name @ rest"
    and name: "CHR ''/'' \<notin> set name"
    and rest: "name = [] \<and> (rest = [] \<or> hd rest = CHR ''/'')
               \<or> rest = [] \<or> rest = ''/'' \<or> (\<exists>r. rest = ''//'' @ r)"
  shows "getOtaMessageType clientId (cstr t) (of_nat (length t)) = Inr OtaNumOfMessageType"
proof -
  have un: "unat (of_nat (length t) :: 16 word) = length t"
    using len by (simp add: unat_of_nat)
  have pre: "take 12 t = OTA_TOPIC_PREFIX" by (simp add: t OTA_TOPIC_PREFIX_def)
  have chk: "strncmp (cstr t) (cstr OTA_TOPIC_PREFIX) 12 = Inr 0"
    using prefix_check[OF nul] pre by auto
  have hd: "rest = [] \<or> hd rest = CHR ''/''" using rest by auto
  have tw: "takeWhile (\<lambda>c. c \<noteq> CHR ''/'') (drop 12 t) = name"
    using takeWhile_segment[OF name hd] by (simp add: t OTA_TOPIC_PREFIX_def)
  have scan1: "scanField (cstr t) (length t) 12 0 = Inr (12 + length name, length name)"
    using scanField_cstr[of 12 t 0] tw by (simp add: t OTA_TOPIC_PREFIX_def)
  show ?thesis
  proof (cases "name = []")
    case True
    then show ?thesis using chk scan1 by (simp add: getOtaMessageType_def un prefix_length)
  next
    case False
    then have rest': "rest = [] \<or> rest = ''/'' \<or> (\<exists>r. rest = ''//'' @ r)" using rest by auto
    obtain r2 where r2: "strncmp (drop 12 (cstr t)) (cstr clientId) (length name) = Inr r2"
      using strncmp_terminated[of "drop 12 (cstr t)" "cstr clientId" "length name"]
      by (auto simp: cstr_def t OTA_TOPIC_PREFIX_def)
    let ?si = "12 + length name"
    have lt: "length t = ?si + length rest" by (simp add: t OTA_TOPIC_PREFIX_def)
    have phase3: "\<exists>si2 fl2. scanField (cstr t) (length t) ((?si + 1) mod 65536) 0 = Inr (si2, fl2)
        \<and> (fl2 > 0 \<longrightarrow> si2 = 4 \<and> fl2 = 4)"
    proof (cases "?si = 65535")
      case True
      then have "length t = 65535" using len lt by simp
      then show ?thesis using wrapped_scan[OF _ pre] True by simp
    next
      case nowrap: False
      then have "?si + 1 < 65536" using len lt by simp
      then have m: "(?si + 1) mod 65536 = ?si + 1" by simp
      from rest' consider "rest = []" | "rest = ''/''" | r where "rest = ''//'' @ r" by auto
      then show ?thesis
      proof cases
        case 1
        then show ?thesis using m lt by (simp add: scanField_past)
      next
        case 2
        then show ?thesis using m lt by (simp add: scanField_past)
      next
        case 3
        have "t = (OTA_TOPIC_PREFIX @ name @ ''/'') @ (CHR ''/'' # r)"
          by (simp add: t 3)
        moreover have "length (OTA_TOPIC_PREFIX @ name @ ''/'') = ?si + 1"
          by (simp add: OTA_TOPIC_PREFIX_def)
        ultimately have "drop (?si + 1) t = CHR ''/'' # r"
          by (metis append_eq_conv_conj)
        then have "takeWhile (\<lambda>c. c \<noteq> CHR ''/'') (drop (?si + 1) t) = []"
          by simp
        then show ?thesis using scanField_cstr[of "?si + 1" t 0] m lt 3 by simp
      qed
    qed
    then obtain si2 fl2 where
      s2: "scanField (cstr t) (length t) ((?si + 1) mod 65536) 0 = Inr (si2, fl2)"
      and w: "fl2 > 0 \<longrightarrow> si2 = 4 \<and> fl2 = 4" by blast
    show ?thesis
      using chk scan1 r2 s2 w wrapped_match[OF pre] False
      by (auto simp: getOtaMessageType_def un pOtaMessageStrings_def prefix_length)
  qed
qed

text \<open>
  A topic made of the prefix, the device's own thing name, a slash and a non-empty
  category segment is classified by the keyword lookup on that segment alone.
\<close>

lemma classify_segments:
  assumes nul: "NUL \<notin> set t" and len: "length t < 65536"
    and t: "t = OTA_TOPIC_PREFIX @ cid @ ''/'' @ seg @ rest"
    and cid: "cid \<noteq> []" "CHR ''/'' \<notin> set cid"
    and seg: "seg \<noteq> []" "CHR ''/'' \<notin> set seg"
    and rest: "rest = [] \<or> hd rest = CHR ''/''"
  shows "getOtaMessageType cid (cstr t) (of_nat (length t)) =
           (case matchMessageString (cstr (seg @ rest)) (length seg) pOtaMessageStrings 0 of
              Inl f \<Rightarrow> Inl f
            | Inr i \<Rightarrow> Inr (if i < length pOtaMessageStrings then OtaMessageType_of_index i
                            else OtaNumOfMessageType))"
proof -
  have un: "unat (of_nat (length t) :: 16 word) = length t"
    using len by (simp add: unat_of_nat)
  have pre: "take 12 t = OTA_TOPIC_PREFIX" by (simp add: t OTA_TOPIC_PREFIX_def)
  have chk: "strncmp (cstr t) (cstr OTA_TOPIC_PREFIX) 12 = Inr 0"
    using prefix_check[OF nul] pre by auto
  have d12: "drop 12 t = cid @ CHR ''/'' # seg @ rest" by (simp add: t OTA_TOPIC_PREFIX_def)
  have tw1: "takeWhile (\<lambda>c. c \<noteq> CHR ''/'') (drop 12 t) = cid"
    using takeWhile_segment[OF cid(2), of "CHR ''/'' # seg @ rest"] by (simp add: d12)
  have scan1: "scanField (cstr t) (length t) 12 0 = Inr (12 + length cid, length cid)"
    using scanField_cstr[of 12 t 0] tw1 by (simp add: t OTA_TOPIC_PREFIX_def)
  have nulc: "NUL \<notin> set cid" using nul by (simp add: t)
  have d12c: "drop 12 (cstr t) = cid @ (CHR ''/'' # seg @ rest @ [NUL])"
    by (simp add: cstr_def t OTA_TOPIC_PREFIX_def)
  have name: "strncmp (drop 12 (cstr t)) (cstr cid) (length cid) = Inr 0"
    using strncmp_same[OF nulc, of "CHR ''/'' # seg @ rest @ [NUL]" "[NUL]"]
    by (subst d12c) (simp add: cstr_def)
  have lt: "length t = 13 + length cid + length seg + length rest"
    by (simp add: t OTA_TOPIC_PREFIX_def)
  have m: "(13 + length cid) mod 65536 = 13 + length cid" using len lt by simp
  have split: "t = (OTA_TOPIC_PREFIX @ cid @ ''/'') @ (seg @ rest)" by (simp add: t)
  have l13: "length (OTA_TOPIC_PREFIX @ cid @ ''/'') = 13 + length cid"
    by (simp add: OTA_TOPIC_PREFIX_def)
  have d13: "drop (13 + length cid) t = seg @ rest"
    using split l13 by (metis append_eq_conv_conj)
  have tw2: "takeWhile (\<lambda>c. c \<noteq> CHR ''/'') (drop (13 + length cid) t) = seg"
    using takeWhile_segment[OF seg(2) rest] by (simp add: d13)
  have scan2: "scanField (cstr t) (length t) (13 + length cid) 0
                 = Inr (13 + length cid + length seg, length seg)"
    using scanField_cstr[of "13 + length cid" t 0] tw2 lt by simp
  have d13c: "drop (13 + length cid) (cstr t) = cstr (seg @ rest)"
    using d13 lt by (simp add: cstr_def)
  have tbl: "length pOtaMessageStrings = 2" by (simp add: pOtaMessageStrings_def)
  show ?thesis
    unfolding getOtaMessageType_def prefix_length un
    using cid(1) seg(1)
    by (simp add: chk scan1 name m scan2 d13c tbl)
qed

lemma classify_jobs_example:
  "getOtaMessageType ''thing'' (cstr ''$aws/things/thing/jobs/x'') 24 = Inr OtaMessageTypeJob"
proof -
  let ?t = "''$aws/things/thing/jobs/x''"
  have nul: "NUL \<notin> set ?t" by (simp add: NUL_def)
  have len: "length ?t < 65536" by simp
  have t: "?t = OTA_TOPIC_PREFIX @ ''thing'' @ ''/'' @ ''jobs'' @ ''/x''"
    by (simp add: OTA_TOPIC_PREFIX_def)
  have w: "(of_nat (length ?t) :: 16 word) = 24" by simp
  have look: "matchMessageString (cstr (''jobs'' @ ''/x'')) (length ''jobs'') pOtaMessageStrings 0
      = Inr 0"
    by (simp add: cstr_def pOtaMessageStrings_def OTA_TOPIC_JOBS_def strncmp_Cons NUL_def)
  show ?thesis
    using classify_segments[OF nul len t, unfolded w look] 
    by (simp add: OtaMessageType_of_index_def pOtaMessageStrings_def)
qed


text \<open>
  On the two keywords themselves the lookup is right, and a segment that is a prefix of
  neither keyword is not recognized.
\<close>

lemma classify_jobs_keyword:
  assumes "NUL \<notin> set t" and "length t < 65536"
    and "t = OTA_TOPIC_PREFIX @ cid @ ''/'' @ ''jobs'' @ rest"
    and "cid \<noteq> []" and "CHR ''/'' \<notin> set cid"
    and "rest = [] \<or> hd rest = CHR ''/''"
  shows "getOtaMessageType cid (cstr t) (of_nat (length t)) = Inr OtaMessageTypeJob"
proof -
  have look: "matchMessageString (cstr (''jobs'' @ rest)) (length ''jobs'') pOtaMessageStrings 0
      = Inr 0"
    by (simp add: cstr_def pOtaMessageStrings_def OTA_TOPIC_JOBS_def strncmp_Cons NUL_def)
  show ?thesis
    using classify_segments[OF assms(1,2,3,4,5) _ _ assms(6), unfolded look]
    by (simp add: OtaMessageType_of_index_def pOtaMessageStrings_def)
qed

lemma classify_streams_keyword:
  assumes "NUL \<notin> set t" and "length t < 65536"
    and "t = OTA_TOPIC_PREFIX @ cid @ ''/'' @ ''streams'' @ rest"
    and "cid \<noteq> []" and "CHR ''/'' \<notin> set cid"
    and "rest = [] \<or> hd rest = CHR ''/''"
  shows "getOtaMessageType cid (cstr t) (of_nat (length t)) = Inr OtaMessageTypeStream"
proof -
  have look: "matchMessageString (cstr (''streams'' @ rest)) (length ''streams'')
      pOtaMessageStrings 0 = Inr 1"
    by (simp add: cstr_def pOtaMessageStrings_def OTA_TOPIC_JOBS_def OTA_TOPIC_STREAM_def
        strncmp_Cons NUL_def)
  show ?thesis
    using classify_segments[OF assms(1,2,3,4,5) _ _ assms(6), unfolded look]
    by (simp add: OtaMessageType_of_index_def pOtaMessageStrings_def)
qed

lemma classify_other_segment:
  assumes "NUL \<notin> set t" and "length t < 65536"
    and t: "t = OTA_TOPIC_PREFIX @ cid @ ''/'' @ seg @ rest"
    and "cid \<noteq> []" and "CHR ''/'' \<notin> set cid"
    and "seg \<noteq> []" and "CHR ''/'' \<notin> set seg"
    and "rest = [] \<or> hd rest = CHR ''/''"
    and nj: "seg \<noteq> take (length seg) ''jobs''"
    and ns: "seg \<noteq> take (length seg) ''streams''"
  shows "getOtaMessageType cid (cstr t) (of_nat (length t)) = Inr OtaNumOfMessageType"
proof -
  have nul: "NUL \<notin> set (take (length seg) (cstr (seg @ rest)))"
    using assms(1) by (simp add: t cstr_def)
  have le: "length seg \<le> length (cstr (seg @ rest))" by (simp add: cstr_def)
  have tk: "take (length seg) (cstr (seg @ rest)) = seg" by (simp add: cstr_def)
  obtain v1 where v1: "strncmp (cstr (seg @ rest)) (cstr ''jobs'') (length seg) = Inr v1"
      "v1 \<noteq> 0"
    using strncmp_keyword[OF le nul, of "''jobs''"] nj tk by (auto simp: NUL_def)
  obtain v2 where v2: "strncmp (cstr (seg @ rest)) (cstr ''streams'') (length seg) = Inr v2"
      "v2 \<noteq> 0"
    using strncmp_keyword[OF le nul, of "''streams''"] ns tk by (auto simp: NUL_def)
  have look: "matchMessageString (cstr (seg @ rest)) (length seg) pOtaMessageStrings 0 = Inr 2"
    using v1 v2 by (simp add: pOtaMessageStrings_def OTA_TOPIC_JOBS_def OTA_TOPIC_STREAM_def)
  show ?thesis
    using classify_segments[OF assms(1,2) t assms(4,5,6,7,8), unfolded look]
    by (simp add: pOtaMessageStrings_def)
qed

text \<open>
  C8. A NUL-terminated topic that does not begin with \<open>$aws/things/\<close> (a topic shorter than
  the prefix included), or whose thing-name segment is empty, or whose category segment is
  empty or absent, is classified as \<open>OtaNumOfMessageType\<close> (unrecognized), and the
  classifier reads no byte outside the topic string: the result is a value, not a fault.
  The hypothesis spells the shapes out: no prefix; or the prefix, a segment \<open>name\<close>
  without slash and a rest, where either the name is empty and the rest is empty or
  starts with a slash, or the rest is empty, one slash, or starts with two slashes.
\<close>

theorem getOtaMessageType_unrecognized_no_fault:
  assumes "NUL \<notin> set t" and "length t < 65536"
    and "take OTA_TOPIC_PREFIX_LENGTH t \<noteq> OTA_TOPIC_PREFIX
         \<or> (\<exists>name rest. t = OTA_TOPIC_PREFIX @ name @ rest \<and> CHR ''/'' \<notin> set name \<and>
               (name = [] \<and> (rest = [] \<or> hd rest = CHR ''/'')
                \<or> rest = [] \<or> rest = ''/'' \<or> (\<exists>r. rest = ''//'' @ r)))"
  shows "getOtaMessageType clientId (cstr t) (of_nat (length t)) = Inr OtaNumOfMessageType"
proof -
  from assms(3) consider
      (noprefix) "take 12 t \<noteq> OTA_TOPIC_PREFIX"
    | (empty) name rest where "t = OTA_TOPIC_PREFIX @ name @ rest" "CHR ''/'' \<notin> set name"
        "name = [] \<and> (rest = [] \<or> hd rest = CHR ''/'')
           \<or> rest = [] \<or> rest = ''/'' \<or> (\<exists>r. rest = ''//'' @ r)"
    unfolding prefix_length by blast
  then show ?thesis
  proof cases
    case noprefix
    then show ?thesis by (rule classify_no_prefix[OF assms(1)])
  next
    case empty
    then show ?thesis by (rule classify_empty_field[OF assms(1) assms(2)])
  qed
qed

theorem getOtaMessageType_unrecognized_no_fault_witness:
  "NUL \<notin> set ''$aws/things/dev//x'' \<and> length ''$aws/things/dev//x'' < 65536
   \<and> ''$aws/things/dev//x'' = OTA_TOPIC_PREFIX @ ''dev'' @ ''//x''
   \<and> getOtaMessageType ''dev'' (cstr ''$aws/things/dev//x'')
        (of_nat (length ''$aws/things/dev//x'')) = Inr OtaNumOfMessageType"
proof -
  have h1: "NUL \<notin> set ''$aws/things/dev//x''" by (simp add: NUL_def)
  have h2: "length ''$aws/things/dev//x'' < 65536" by simp
  have eq: "''$aws/things/dev//x'' = OTA_TOPIC_PREFIX @ ''dev'' @ ''//x''"
    by (simp add: OTA_TOPIC_PREFIX_def)
  have nm: "CHR ''/'' \<notin> set ''dev''" by simp
  have r: "\<exists>r. ''//x'' = ''//'' @ r" by simp
  have inner: "''$aws/things/dev//x'' = OTA_TOPIC_PREFIX @ ''dev'' @ ''//x''
      \<and> CHR ''/'' \<notin> set ''dev'' \<and>
        (''dev'' = [] \<and> (''//x'' = [] \<or> hd ''//x'' = CHR ''/'')
         \<or> ''//x'' = [] \<or> ''//x'' = ''/'' \<or> (\<exists>r. ''//x'' = ''//'' @ r))"
    by (intro conjI disjI2 eq nm r)
  have h3: "take OTA_TOPIC_PREFIX_LENGTH ''$aws/things/dev//x'' \<noteq> OTA_TOPIC_PREFIX
         \<or> (\<exists>name rest. ''$aws/things/dev//x'' = OTA_TOPIC_PREFIX @ name @ rest
               \<and> CHR ''/'' \<notin> set name \<and>
               (name = [] \<and> (rest = [] \<or> hd rest = CHR ''/'')
                \<or> rest = [] \<or> rest = ''/'' \<or> (\<exists>r. rest = ''//'' @ r)))"
    by (rule disjI2, rule exI[of _ "''dev''"], rule exI[of _ "''//x''"], rule inner)
  from getOtaMessageType_unrecognized_no_fault[OF h1 h2 h3, of "''dev''"]
  have c: "getOtaMessageType ''dev'' (cstr ''$aws/things/dev//x'')
        (of_nat (length ''$aws/things/dev//x'')) = Inr OtaNumOfMessageType" .
  show ?thesis
    apply (rule conjI, rule h1)
    apply (rule conjI, rule h2)
    apply (rule conjI, rule eq)
    apply (rule c)
    done
qed

text \<open>
  C5. The category segment is compared with each keyword on the segment's own length
  only, so a segment that is a proper prefix of a keyword is taken for the keyword: with
  thing name \<open>thing\<close>, the topic \<open>$aws/things/thing/job/x\<close>, whose category segment
  \<open>job\<close> is not a keyword, is classified as a job topic.
\<close>

theorem getOtaMessageType_keyword_prefix_accepted:
  "getOtaMessageType ''thing'' (cstr ''$aws/things/thing/job/x'') 23 = Inr OtaMessageTypeJob"
proof -
  let ?t = "''$aws/things/thing/job/x''"
  have nul: "NUL \<notin> set ?t" by (simp add: NUL_def)
  have len: "length ?t < 65536" by simp
  have t: "?t = OTA_TOPIC_PREFIX @ ''thing'' @ ''/'' @ ''job'' @ ''/x''"
    by (simp add: OTA_TOPIC_PREFIX_def)
  have w: "(of_nat (length ?t) :: 16 word) = 23" by simp
  have look: "matchMessageString (cstr (''job'' @ ''/x'')) (length ''job'') pOtaMessageStrings 0
      = Inr 0"
    by (simp add: cstr_def pOtaMessageStrings_def OTA_TOPIC_JOBS_def strncmp_Cons NUL_def)
  show ?thesis
    using classify_segments[OF nul len t, unfolded w look] 
    by (simp add: OtaMessageType_of_index_def pOtaMessageStrings_def)
qed

section \<open>Properties of the event buffer pool\<close>

lemma bufferScan_finds:
  "i \<le> k \<Longrightarrow> k < length eb \<Longrightarrow> bufferUsed (eb ! k) = False \<Longrightarrow>
   (\<And>j. i \<le> j \<Longrightarrow> j < k \<Longrightarrow> bufferUsed (eb ! j)) \<Longrightarrow>
   bufferScan eb i = (Some k, eb[k := (eb ! k)\<lparr>bufferUsed := True\<rparr>])"
proof (induction "k - i" arbitrary: i)
  case 0
  then have "i = k" by simp
  then show ?case using 0 by (subst bufferScan.simps) simp
next
  case (Suc d)
  then have lt: "i < k" by simp
  then have used: "bufferUsed (eb ! i)" using Suc.prems by simp
  have ih: "bufferScan eb (Suc i) = (Some k, eb[k := (eb ! k)\<lparr>bufferUsed := True\<rparr>])"
    using Suc.hyps(1)[of "Suc i"] Suc.hyps(2) Suc.prems lt by simp
  show ?case using lt used ih Suc.prems(2) by (subst bufferScan.simps) simp
qed

lemma bufferScan_none:
  "(\<And>j. i \<le> j \<Longrightarrow> j < length eb \<Longrightarrow> bufferUsed (eb ! j)) \<Longrightarrow>
   bufferScan eb i = (None, eb)"
proof (induction "length eb - i" arbitrary: i)
  case 0
  then show ?case by (subst bufferScan.simps) simp
next
  case (Suc d)
  then have lt: "i < length eb" by simp
  have ih: "bufferScan eb (Suc i) = (None, eb)"
    using Suc.hyps(1)[of "Suc i"] Suc.hyps(2) Suc.prems by simp
  show ?case using lt ih Suc.prems[of i] by (subst bufferScan.simps) simp
qed

text \<open>
  The pool after \<open>k\<close> acquisitions from an all-free pool: the first \<open>k\<close> slots are used,
  the others are free.
\<close>

lemma acquired_prefix:
  assumes sem: "xSemaphoreTake e"
    and free: "\<forall>b \<in> set (eventBuffer s). bufferUsed b = False"
    and k: "k \<le> length (eventBuffer s)"
  shows "length (eventBuffer (((\<lambda>x. snd (prvOTAEventBufferGet e x)) ^^ k) s))
           = length (eventBuffer s)
       \<and> (\<forall>j < length (eventBuffer s).
            bufferUsed (eventBuffer (((\<lambda>x. snd (prvOTAEventBufferGet e x)) ^^ k) s) ! j)
              = (j < k))"
  using k
proof (induction k)
  case 0
  then show ?case using free by simp
next
  case (Suc k)
  let ?sk = "((\<lambda>x. snd (prvOTAEventBufferGet e x)) ^^ k) s"
  let ?eb = "eventBuffer ?sk"
  have len: "length ?eb = length (eventBuffer s)"
    and used: "\<forall>j < length (eventBuffer s). bufferUsed (?eb ! j) = (j < k)"
    using Suc by simp_all
  have klt: "k < length ?eb" using Suc.prems len by simp
  have scan: "bufferScan ?eb 0 = (Some k, ?eb[k := (?eb ! k)\<lparr>bufferUsed := True\<rparr>])"
    using bufferScan_finds[of 0 k ?eb] klt used len by simp
  have step: "eventBuffer (snd (prvOTAEventBufferGet e ?sk))
                = ?eb[k := (?eb ! k)\<lparr>bufferUsed := True\<rparr>]"
    using sem scan by (simp add: prvOTAEventBufferGet_def)
  show ?case
    using len used klt by (auto simp: step nth_list_update)
qed

lemma acquire_next:
  assumes sem: "xSemaphoreTake e"
    and free: "\<forall>b \<in> set (eventBuffer s). bufferUsed b = False"
    and k: "k < length (eventBuffer s)"
  shows "fst (prvOTAEventBufferGet e (((\<lambda>x. snd (prvOTAEventBufferGet e x)) ^^ k) s)) = Some k"
proof -
  let ?sk = "((\<lambda>x. snd (prvOTAEventBufferGet e x)) ^^ k) s"
  let ?eb = "eventBuffer ?sk"
  have inv: "length ?eb = length (eventBuffer s)
       \<and> (\<forall>j < length (eventBuffer s). bufferUsed (?eb ! j) = (j < k))"
    using acquired_prefix[OF sem free, of k] k by simp
  have "bufferScan ?eb 0 = (Some k, ?eb[k := (?eb ! k)\<lparr>bufferUsed := True\<rparr>])"
    using bufferScan_finds[of 0 k ?eb] inv k by simp
  then show ?thesis using sem by (simp add: prvOTAEventBufferGet_def)
qed

lemma acquire_exhausted:
  assumes sem: "xSemaphoreTake e"
    and free: "\<forall>b \<in> set (eventBuffer s). bufferUsed b = False"
  shows "(\<forall>b \<in> set (eventBuffer (((\<lambda>x. snd (prvOTAEventBufferGet e x))
                ^^ length (eventBuffer s)) s)). bufferUsed b)
       \<and> fst (prvOTAEventBufferGet e (((\<lambda>x. snd (prvOTAEventBufferGet e x))
                ^^ length (eventBuffer s)) s)) = None"
proof -
  let ?sN = "((\<lambda>x. snd (prvOTAEventBufferGet e x)) ^^ length (eventBuffer s)) s"
  let ?eb = "eventBuffer ?sN"
  have inv: "length ?eb = length (eventBuffer s)
       \<and> (\<forall>j < length (eventBuffer s). bufferUsed (?eb ! j))"
    using acquired_prefix[OF sem free, of "length (eventBuffer s)"] by simp
  then have all: "\<forall>b \<in> set ?eb. bufferUsed b"
    by (metis in_set_conv_nth)
  have "bufferScan ?eb 0 = (None, ?eb)"
    using bufferScan_none[of 0 ?eb] inv by simp
  then show ?thesis using sem all by (simp add: prvOTAEventBufferGet_def)
qed

lemma release_then_acquire:
  assumes sem: "xSemaphoreTake e"
    and free: "\<forall>b \<in> set (eventBuffer s). bufferUsed b = False"
    and i: "i < length (eventBuffer s)"
  shows "\<exists>s'. prvOTAEventBufferFree e i (((\<lambda>x. snd (prvOTAEventBufferGet e x))
                  ^^ length (eventBuffer s)) s) = Inr s'
            \<and> fst (prvOTAEventBufferGet e s') = Some i"
proof -
  let ?sN = "((\<lambda>x. snd (prvOTAEventBufferGet e x)) ^^ length (eventBuffer s)) s"
  let ?eb = "eventBuffer ?sN"
  let ?eb' = "?eb[i := (?eb ! i)\<lparr>bufferUsed := False\<rparr>]"
  have inv: "length ?eb = length (eventBuffer s)
       \<and> (\<forall>j < length (eventBuffer s). bufferUsed (?eb ! j))"
    using acquired_prefix[OF sem free, of "length (eventBuffer s)"] by simp
  have rel: "prvOTAEventBufferFree e i ?sN = Inr (?sN\<lparr>eventBuffer := ?eb'\<rparr>)"
    using sem i inv by (simp add: prvOTAEventBufferFree_def)
  have "bufferScan ?eb' 0 = (Some i, ?eb'[i := (?eb' ! i)\<lparr>bufferUsed := True\<rparr>])"
    using bufferScan_finds[of 0 i ?eb'] inv i by (simp add: nth_list_update)
  then have "fst (prvOTAEventBufferGet e (?sN\<lparr>eventBuffer := ?eb'\<rparr>)) = Some i"
    using sem by (simp add: prvOTAEventBufferGet_def)
  then show ?thesis using rel by blast
qed

text \<open>
  C7. From a pool whose slots are all free, with the mutex obtained at every call, the
  \<open>k+1\<close>-th acquisition returns slot \<open>k\<close> for every \<open>k\<close> below the pool size \<open>N\<close>; after
  \<open>N\<close> acquisitions every slot is used and the next acquisition returns NULL; and after
  any slot \<open>i\<close> is then released, the next acquisition succeeds and returns slot \<open>i\<close>.
\<close>

theorem pool_exhaustion_and_reuse:
  assumes "xSemaphoreTake e"
    and "\<forall>b \<in> set (eventBuffer s). bufferUsed b = False"
  shows "(\<forall>k < length (eventBuffer s).
            fst (prvOTAEventBufferGet e
                   (((\<lambda>x. snd (prvOTAEventBufferGet e x)) ^^ k) s)) = Some k)
       \<and> (\<forall>b \<in> set (eventBuffer (((\<lambda>x. snd (prvOTAEventBufferGet e x))
                ^^ length (eventBuffer s)) s)). bufferUsed b)
       \<and> fst (prvOTAEventBufferGet e (((\<lambda>x. snd (prvOTAEventBufferGet e x))
                ^^ length (eventBuffer s)) s)) = None
       \<and> (\<forall>i < length (eventBuffer s).
            \<exists>s'. prvOTAEventBufferFree e i (((\<lambda>x. snd (prvOTAEventBufferGet e x))
                      ^^ length (eventBuffer s)) s) = Inr s'
                \<and> fst (prvOTAEventBufferGet e s') = Some i)"
  using acquire_next[OF assms] acquire_exhausted[OF assms] release_then_acquire[OF assms]
  by blast

theorem pool_exhaustion_and_reuse_witness:
  "xSemaphoreTake sample_env
   \<and> bufferUsed (eventBuffer sample_state ! 0) = False
   \<and> bufferUsed (eventBuffer sample_state ! 1) = False
   \<and> length (eventBuffer sample_state) = 2
   \<and> fst (prvOTAEventBufferGet sample_env sample_state) = Some 0
   \<and> fst (prvOTAEventBufferGet sample_env
             (snd (prvOTAEventBufferGet sample_env sample_state))) = Some 1
   \<and> fst (prvOTAEventBufferGet sample_env
             (((\<lambda>x. snd (prvOTAEventBufferGet sample_env x)) ^^ 2) sample_state)) = None
   \<and> (\<exists>s'. prvOTAEventBufferFree sample_env 1
               (((\<lambda>x. snd (prvOTAEventBufferGet sample_env x)) ^^ 2) sample_state) = Inr s'
           \<and> fst (prvOTAEventBufferGet sample_env s') = Some 1)"
proof -
  have sem: "xSemaphoreTake sample_env" by (simp add: sample_env_def)
  have free: "\<forall>b \<in> set (eventBuffer sample_state). bufferUsed b = False"
    by (simp add: sample_state_def free_slot_def)
  have len: "length (eventBuffer sample_state) = 2" by (simp add: sample_state_def)
  have b0: "bufferUsed (eventBuffer sample_state ! 0) = False"
    and b1: "bufferUsed (eventBuffer sample_state ! 1) = False"
    by (simp_all add: sample_state_def free_slot_def)
  note inst = pool_exhaustion_and_reuse[OF sem free, unfolded len]
  have k0: "fst (prvOTAEventBufferGet sample_env sample_state) = Some 0"
    using inst[THEN conjunct1, rule_format, of 0] by simp
  have k1: "fst (prvOTAEventBufferGet sample_env
             (snd (prvOTAEventBufferGet sample_env sample_state))) = Some 1"
    using inst[THEN conjunct1, rule_format, of 1] by simp
  have full: "fst (prvOTAEventBufferGet sample_env
             (((\<lambda>x. snd (prvOTAEventBufferGet sample_env x)) ^^ 2) sample_state)) = None"
    using inst by blast
  have rel: "\<exists>s'. prvOTAEventBufferFree sample_env 1
               (((\<lambda>x. snd (prvOTAEventBufferGet sample_env x)) ^^ 2) sample_state) = Inr s'
           \<and> fst (prvOTAEventBufferGet sample_env s') = Some 1"
    using inst[THEN conjunct2, THEN conjunct2, THEN conjunct2, rule_format, of 1] by simp
  show ?thesis using sem b0 b1 len k0 k1 full rel by blast
qed

text \<open>
  C4. \<^verbatim>\<open>prvOTAEventBufferFree\<close> contains no assertion: releasing slot 0 of the sample
  pool, which is free, returns normally and leaves the state as it was.
\<close>

theorem release_free_slot_no_assertion:
  "bufferUsed (eventBuffer sample_state ! 0) = False
   \<and> prvOTAEventBufferFree sample_env 0 sample_state = Inr sample_state
   \<and> prvOTAEventBufferFree sample_env 0 sample_state \<noteq> Inl AssertFailed"
  by (simp add: prvOTAEventBufferFree_def sample_env_def sample_state_def free_slot_def)

text \<open>
  C4, as the code has it. Releasing a slot of the pool that is already free is not
  detected: the call returns normally, and the state is unchanged when the mutex is
  obtained; when it is not, the only effect is the error log entry.
\<close>

theorem release_free_slot_is_silent:
  assumes "pxBuffer < length (eventBuffer s)"
    and "bufferUsed (eventBuffer s ! pxBuffer) = False"
  shows "prvOTAEventBufferFree e pxBuffer s
           = Inr (if xSemaphoreTake e then s else do_call (Log LogError) s)"
proof -
  have "r\<lparr>bufferUsed := False\<rparr> = r" if "bufferUsed r = False" for r :: OtaEventData
    using that by (cases r) simp
  then have "(eventBuffer s ! pxBuffer)\<lparr>bufferUsed := False\<rparr> = eventBuffer s ! pxBuffer"
    using assms(2) by simp
  then show ?thesis using assms(1) by (simp add: prvOTAEventBufferFree_def)
qed

theorem release_free_slot_is_silent_witness:
  "1 < length (eventBuffer sample_state)
   \<and> bufferUsed (eventBuffer sample_state ! 1) = False
   \<and> prvOTAEventBufferFree sample_env 1 sample_state = Inr sample_state"
proof -
  have h1: "1 < length (eventBuffer sample_state)" by (simp add: sample_state_def)
  have h2: "bufferUsed (eventBuffer sample_state ! 1) = False"
    by (simp add: sample_state_def free_slot_def)
  have sem: "xSemaphoreTake sample_env" by (simp add: sample_env_def)
  show ?thesis
    using release_free_slot_is_silent[OF h1 h2, of sample_env] h1 h2 sem by simp
qed

section \<open>Properties of the blocking wrappers\<close>

text \<open>
  C3. For a publish the timeout is not turned into the receive-failed code: with the
  sample agent, which accepts the command and never notifies, the status after the wait
  is \<open>MQTTSendFailed\<close>, and \<^verbatim>\<open>prvMQTTPublish\<close> returns \<open>OtaMqttPublishFailed\<close>.
\<close>

theorem publish_timeout_is_send_failed:
  "xTaskNotifyWait sample_env = None
   \<and> MQTTAgent_Publish sample_env
         \<lparr>qos = 0, pTopicName = ''t'', topicNameLength = 1,
          pPayload = Some ''m'', payloadLength = 1\<rparr> = MQTTSuccess
   \<and> await_publish sample_env
         (MQTTAgent_Publish sample_env
            \<lparr>qos = 0, pTopicName = ''t'', topicNameLength = 1,
             pPayload = Some ''m'', payloadLength = 1\<rparr>) = MQTTSendFailed
   \<and> MQTTSendFailed \<noteq> MQTTRecvFailed
   \<and> fst (prvMQTTPublish sample_env ''t'' 1 ''m'' 1 0 sample_state) = OtaMqttPublishFailed"
  by (simp add: sample_env_def await_publish_def prvMQTTPublish_def)

text \<open>
  C3, as the code has it. When the command was enqueued and the wait for the
  notification times out, subscribe and unsubscribe return the receive-failed code
  \<open>MQTTRecvFailed\<close>, while publish sets the send-failed code \<open>MQTTSendFailed\<close> and returns
  \<open>OtaMqttPublishFailed\<close>; each of these differs from success.
\<close>

theorem bridge_timeout_codes:
  assumes "xTaskNotifyWait e = None"
  shows "(strlen f = Inr n \<and> MQTTAgent_Subscribe e f (n mod 65536) q = MQTTSuccess
            \<longrightarrow> (\<exists>s'. prvSubscribeToTopic e q f cb s = Inr (MQTTRecvFailed, s')))
       \<and> (strlen f = Inr n \<and> MQTTAgent_Unsubscribe e f (n mod 65536) q = MQTTSuccess
            \<longrightarrow> (\<exists>s'. prvUnSubscribeFromTopic e q f s = Inr (MQTTRecvFailed, s')))
       \<and> (MQTTAgent_Publish e \<lparr>qos = q, pTopicName = t, topicNameLength = tlen,
                                  pPayload = Some m, payloadLength = mlen\<rparr> = MQTTSuccess
            \<longrightarrow> await_publish e MQTTSuccess = MQTTSendFailed
                \<and> fst (prvMQTTPublish e t tlen m mlen q s) = OtaMqttPublishFailed)
       \<and> MQTTRecvFailed \<noteq> MQTTSuccess \<and> MQTTSendFailed \<noteq> MQTTSuccess"
  using assms
  by (simp add: prvSubscribeToTopic_def prvUnSubscribeFromTopic_def prvMQTTPublish_def
      await_subscribe_def await_publish_def Let_def)

theorem bridge_timeout_codes_witness:
  "xTaskNotifyWait sample_env = None
   \<and> strlen (cstr ''a/b'') = Inr 3
   \<and> MQTTAgent_Subscribe sample_env (cstr ''a/b'') (3 mod 65536) 1 = MQTTSuccess
   \<and> MQTTAgent_Unsubscribe sample_env (cstr ''a/b'') (3 mod 65536) 1 = MQTTSuccess
   \<and> MQTTAgent_Publish sample_env
         \<lparr>qos = 1, pTopicName = ''t'', topicNameLength = 1,
          pPayload = Some ''m'', payloadLength = 1\<rparr> = MQTTSuccess
   \<and> (\<exists>s'. prvSubscribeToTopic sample_env 1 (cstr ''a/b'') ProcessIncomingData sample_state
              = Inr (MQTTRecvFailed, s'))
   \<and> (\<exists>s'. prvUnSubscribeFromTopic sample_env 1 (cstr ''a/b'') sample_state
              = Inr (MQTTRecvFailed, s'))
   \<and> fst (prvMQTTPublish sample_env ''t'' 1 ''m'' 1 1 sample_state) = OtaMqttPublishFailed"
proof -
  have h: "xTaskNotifyWait sample_env = None" by (simp add: sample_env_def)
  have l: "strlen (cstr ''a/b'') = Inr 3" by (simp add: strlen_def cstr_def NUL_def)
  have a1: "MQTTAgent_Subscribe sample_env (cstr ''a/b'') (3 mod 65536) 1 = MQTTSuccess"
    and a2: "MQTTAgent_Unsubscribe sample_env (cstr ''a/b'') (3 mod 65536) 1 = MQTTSuccess"
    and a3: "MQTTAgent_Publish sample_env
         \<lparr>qos = 1, pTopicName = ''t'', topicNameLength = 1,
          pPayload = Some ''m'', payloadLength = 1\<rparr> = MQTTSuccess"
    by (simp_all add: sample_env_def)
  show ?thesis
    using bridge_timeout_codes[OF h, of "cstr ''a/b''" 3 1 ProcessIncomingData sample_state
        "''t''" 1 "''m''" 1] h l a1 a2 a3
    by blast
qed

text \<open>
  C9. A topic filter that \<^verbatim>\<open>getOtaMessageType\<close> does not recognize makes
  \<^verbatim>\<open>prvMQTTSubscribe\<close> fail its assertion; and whenever \<^verbatim>\<open>prvMQTTSubscribe\<close> returns
  \<open>OtaMqttSubscribeFailed\<close>, its topic filter was classified as a job or a stream topic.
\<close>

theorem prvMQTTSubscribe_unrecognized_asserts:
  "(getOtaMessageType (democonfigCLIENT_IDENTIFIER cfg) p len = Inr OtaNumOfMessageType
      \<longrightarrow> prvMQTTSubscribe e cfg (Some p) len q s = Inl AssertFailed)
   \<and> (prvMQTTSubscribe e' cfg' pf' len' q' s' = Inr (OtaMqttSubscribeFailed, s'')
      \<longrightarrow> (\<exists>p'. pf' = Some p'
            \<and> (getOtaMessageType (democonfigCLIENT_IDENTIFIER cfg') p' len'
                   = Inr OtaMessageTypeJob
               \<or> getOtaMessageType (democonfigCLIENT_IDENTIFIER cfg') p' len'
                   = Inr OtaMessageTypeStream)))"
proof (intro conjI impI)
  assume "getOtaMessageType (democonfigCLIENT_IDENTIFIER cfg) p len = Inr OtaNumOfMessageType"
  then show "prvMQTTSubscribe e cfg (Some p) len q s = Inl AssertFailed"
    by (simp add: prvMQTTSubscribe_def index_of_OtaMessageType_def)
next
  assume r: "prvMQTTSubscribe e' cfg' pf' len' q' s' = Inr (OtaMqttSubscribeFailed, s'')"
  then obtain p' where pf: "pf' = Some p'"
    by (cases pf') (simp_all add: prvMQTTSubscribe_def)
  from r pf obtain m where m: "getOtaMessageType (democonfigCLIENT_IDENTIFIER cfg') p' len' = Inr m"
    by (cases "getOtaMessageType (democonfigCLIENT_IDENTIFIER cfg') p' len'")
       (simp_all add: prvMQTTSubscribe_def split: if_splits)
  have "m \<noteq> OtaNumOfMessageType"
    using r pf m by (auto simp: prvMQTTSubscribe_def index_of_OtaMessageType_def split: if_splits)
  then have "m = OtaMessageTypeJob \<or> m = OtaMessageTypeStream" by (cases m) simp_all
  then show "\<exists>p'. pf' = Some p'
            \<and> (getOtaMessageType (democonfigCLIENT_IDENTIFIER cfg') p' len'
                   = Inr OtaMessageTypeJob
               \<or> getOtaMessageType (democonfigCLIENT_IDENTIFIER cfg') p' len'
                   = Inr OtaMessageTypeStream)"
    using pf m by simp
qed

theorem prvMQTTSubscribe_unrecognized_asserts_witness:
  "getOtaMessageType (democonfigCLIENT_IDENTIFIER sample_config) (cstr ''x'') 1
     = Inr OtaNumOfMessageType
   \<and> prvMQTTSubscribe sample_env sample_config (Some (cstr ''x'')) 1 0 sample_state
       = Inl AssertFailed
   \<and> prvMQTTSubscribe sample_env sample_config (Some (cstr ''$aws/things/thing/jobs/x'')) 24 0
         sample_state
       = Inr (OtaMqttSubscribeFailed,
              do_call (Log LogError)
                (do_call (AgentSubscribe (cstr ''$aws/things/thing/jobs/x'') 24 0
                            ProcessIncomingJobMessage)
                   (do_call (Log LogInfo) sample_state)))
   \<and> (\<exists>p'. Some (cstr ''$aws/things/thing/jobs/x'') = Some p'
          \<and> (getOtaMessageType (democonfigCLIENT_IDENTIFIER sample_config) p' 24
                 = Inr OtaMessageTypeJob
              \<or> getOtaMessageType (democonfigCLIENT_IDENTIFIER sample_config) p' 24
                 = Inr OtaMessageTypeStream))"
proof -
  have cid: "democonfigCLIENT_IDENTIFIER sample_config = ''thing''"
    by (simp add: sample_config_def)
  have nul: "NUL \<notin> set ''x''" by (simp add: NUL_def)
  have h1: "getOtaMessageType (democonfigCLIENT_IDENTIFIER sample_config) (cstr ''x'') 1
     = Inr OtaNumOfMessageType"
    using classify_no_prefix[OF nul, of "''thing''" 1] by (simp add: cid OTA_TOPIC_PREFIX_def)
  have len: "strlen (cstr ''$aws/things/thing/jobs/x'') = Inr 24"
    by (simp add: strlen_def cstr_def NUL_def)
  have sub: "prvSubscribeToTopic sample_env 0 (cstr ''$aws/things/thing/jobs/x'')
               ProcessIncomingJobMessage sample_state
             = Inr (MQTTRecvFailed,
                    do_call (AgentSubscribe (cstr ''$aws/things/thing/jobs/x'') 24 0
                               ProcessIncomingJobMessage)
                      (do_call (Log LogInfo) sample_state))"
    by (simp add: prvSubscribeToTopic_def len await_subscribe_def sample_env_def Let_def)
  have h2: "prvMQTTSubscribe sample_env sample_config
              (Some (cstr ''$aws/things/thing/jobs/x'')) 24 0 sample_state
       = Inr (OtaMqttSubscribeFailed,
              do_call (Log LogError)
                (do_call (AgentSubscribe (cstr ''$aws/things/thing/jobs/x'') 24 0
                            ProcessIncomingJobMessage)
                   (do_call (Log LogInfo) sample_state)))"
    by (simp add: prvMQTTSubscribe_def cid classify_jobs_example index_of_OtaMessageType_def
        otaMessageCallback_def sub)
  note inst = prvMQTTSubscribe_unrecognized_asserts[of sample_config "cstr ''x''" 1
      sample_env 0 sample_state sample_env sample_config
      "Some (cstr ''$aws/things/thing/jobs/x'')" 24 0 sample_state]
  have c1: "prvMQTTSubscribe sample_env sample_config (Some (cstr ''x'')) 1 0 sample_state
       = Inl AssertFailed"
    using inst[THEN conjunct1] h1 by (rule mp)
  have c2: "\<exists>p'. Some (cstr ''$aws/things/thing/jobs/x'') = Some p'
          \<and> (getOtaMessageType (democonfigCLIENT_IDENTIFIER sample_config) p' 24
                 = Inr OtaMessageTypeJob
              \<or> getOtaMessageType (democonfigCLIENT_IDENTIFIER sample_config) p' 24
                 = Inr OtaMessageTypeStream)"
    using inst[THEN conjunct2] h2 by (rule mp)
  show ?thesis
    by (intro conjI h1 c1 h2 c2)
qed

section \<open>Properties of the job action dispatcher\<close>

lemma NUL_notin_take:
  "take n p = take n k \<Longrightarrow> NUL \<notin> set k \<Longrightarrow> NUL \<notin> set (take n p)"
  by (metis in_set_takeD)

lemma take_eq_shorter:
  "take n p = take n k \<Longrightarrow> m \<le> n \<Longrightarrow> take m p = take m k"
  by (metis min.absorb1 take_take)

lemma take_eq_bound:
  "take n p = take n k \<Longrightarrow> n \<le> length p \<Longrightarrow> n \<le> length k"
  by (metis length_take min.absorb2 min.cobounded1)

lemma prvGetAction_print:
  assumes "n \<le> length p" and "take n p = take n ''print''"
  shows "prvGetAction (Some p) n = Inr JOB_ACTION_PRINT"
proof -
  have nul: "NUL \<notin> set (take n p)"
    using NUL_notin_take[OF assms(2)] by (simp add: NUL_def)
  have b: "n \<le> length ''print''" using take_eq_bound[OF assms(2) assms(1)] .
  obtain v where "strncmp p (cstr ''print'') n = Inr v" "v = 0"
    using strncmp_keyword[OF assms(1) nul, of "''print''"] assms(2) b
    by (auto simp: NUL_def)
  then show ?thesis by (simp add: prvGetAction_def)
qed

lemma prvGetAction_publish:
  assumes "n \<le> length p" and "take n p = take n ''publish''" and "2 \<le> n"
  shows "prvGetAction (Some p) n = Inr JOB_ACTION_PUBLISH"
proof -
  have nul: "NUL \<notin> set (take n p)"
    using NUL_notin_take[OF assms(2)] by (simp add: NUL_def)
  have b: "n \<le> length ''publish''" using take_eq_bound[OF assms(2) assms(1)] .
  have two: "take 2 p = ''pu''" using take_eq_shorter[OF assms(2) assms(3)] by simp
  have "take n p \<noteq> take n ''print''"
  proof
    assume "take n p = take n ''print''"
    from take_eq_shorter[OF this assms(3)] two show False by simp
  qed
  then obtain v1 where v1: "strncmp p (cstr ''print'') n = Inr v1" "v1 \<noteq> 0"
    using strncmp_keyword[OF assms(1) nul, of "''print''"] by (auto simp: NUL_def)
  obtain v2 where v2: "strncmp p (cstr ''publish'') n = Inr v2" "v2 = 0"
    using strncmp_keyword[OF assms(1) nul, of "''publish''"] assms(2) b
    by (auto simp: NUL_def)
  show ?thesis using v1 v2 by (simp add: prvGetAction_def)
qed

lemma prvGetAction_exit:
  assumes "n \<le> length p" and "take n p = take n ''exit''" and "1 \<le> n"
  shows "prvGetAction (Some p) n = Inr JOB_ACTION_EXIT"
proof -
  have nul: "NUL \<notin> set (take n p)"
    using NUL_notin_take[OF assms(2)] by (simp add: NUL_def)
  have b: "n \<le> length ''exit''" using take_eq_bound[OF assms(2) assms(1)] .
  have one: "take 1 p = ''e''" using take_eq_shorter[OF assms(2) assms(3)] by simp
  have "take n p \<noteq> take n ''print''"
  proof
    assume "take n p = take n ''print''"
    from take_eq_shorter[OF this assms(3)] one show False by simp
  qed
  then obtain v1 where v1: "strncmp p (cstr ''print'') n = Inr v1" "v1 \<noteq> 0"
    using strncmp_keyword[OF assms(1) nul, of "''print''"] by (auto simp: NUL_def)
  have "take n p \<noteq> take n ''publish''"
  proof
    assume "take n p = take n ''publish''"
    from take_eq_shorter[OF this assms(3)] one show False by simp
  qed
  then obtain v2 where v2: "strncmp p (cstr ''publish'') n = Inr v2" "v2 \<noteq> 0"
    using strncmp_keyword[OF assms(1) nul, of "''publish''"] by (auto simp: NUL_def)
  obtain v3 where v3: "strncmp p (cstr ''exit'') n = Inr v3" "v3 = 0"
    using strncmp_keyword[OF assms(1) nul, of "''exit''"] assms(2) b
    by (auto simp: NUL_def)
  show ?thesis using v1 v2 v3 by (simp add: prvGetAction_def)
qed

text \<open>
  C10. \<^verbatim>\<open>prvGetAction\<close> compares on the action's own length. An action of \<open>n\<close>
  characters (the first \<open>n\<close> bytes behind \<open>pcAction\<close>) that are the first \<open>n\<close> characters
  of \<open>print\<close> is \<open>JOB_ACTION_PRINT\<close>, the empty action included; one of at least two
  characters that are the first of \<open>publish\<close> is \<open>JOB_ACTION_PUBLISH\<close> (the one-character
  prefix \<open>p\<close> is already a prefix of \<open>print\<close>); one of at least one character that are the
  first of \<open>exit\<close> is \<open>JOB_ACTION_EXIT\<close>.
\<close>

theorem prvGetAction_accepts_keyword_prefixes:
  "(n1 \<le> length p1 \<and> take n1 p1 = take n1 ''print''
      \<longrightarrow> prvGetAction (Some p1) n1 = Inr JOB_ACTION_PRINT)
   \<and> (n2 \<le> length p2 \<and> take n2 p2 = take n2 ''publish'' \<and> 2 \<le> n2
      \<longrightarrow> prvGetAction (Some p2) n2 = Inr JOB_ACTION_PUBLISH)
   \<and> (n3 \<le> length p3 \<and> take n3 p3 = take n3 ''exit'' \<and> 1 \<le> n3
      \<longrightarrow> prvGetAction (Some p3) n3 = Inr JOB_ACTION_EXIT)"
  using prvGetAction_print[of n1 p1] prvGetAction_publish[of n2 p2] prvGetAction_exit[of n3 p3]
  by blast

theorem prvGetAction_accepts_keyword_prefixes_witness:
  "0 \<le> length ''print-job'' \<and> take 0 ''print-job'' = take 0 ''print''
   \<and> 3 \<le> length ''pub-x'' \<and> take 3 ''pub-x'' = take 3 ''publish'' \<and> (2::nat) \<le> 3
   \<and> 2 \<le> length ''ex'' \<and> take 2 ''ex'' = take 2 ''exit'' \<and> (1::nat) \<le> 2
   \<and> prvGetAction (Some ''print-job'') 0 = Inr JOB_ACTION_PRINT
   \<and> prvGetAction (Some ''pub-x'') 3 = Inr JOB_ACTION_PUBLISH
   \<and> prvGetAction (Some ''ex'') 2 = Inr JOB_ACTION_EXIT"
proof -
  have h1: "0 \<le> length ''print-job'' \<and> take 0 ''print-job'' = take 0 ''print''" by simp
  have h2: "3 \<le> length ''pub-x'' \<and> take 3 ''pub-x'' = take 3 ''publish'' \<and> (2::nat) \<le> 3"
    by simp
  have h3: "2 \<le> length ''ex'' \<and> take 2 ''ex'' = take 2 ''exit'' \<and> (1::nat) \<le> 2" by simp
  note inst = prvGetAction_accepts_keyword_prefixes[of 0 "''print-job''" 3 "''pub-x''" 2 "''ex''"]
  have c1: "prvGetAction (Some ''print-job'') 0 = Inr JOB_ACTION_PRINT"
    using inst[THEN conjunct1] h1 by (rule mp)
  have c2: "prvGetAction (Some ''pub-x'') 3 = Inr JOB_ACTION_PUBLISH"
    using inst[THEN conjunct2, THEN conjunct1] h2 by (rule mp)
  have c3: "prvGetAction (Some ''ex'') 2 = Inr JOB_ACTION_EXIT"
    using inst[THEN conjunct2, THEN conjunct2] h3 by (rule mp)
  show ?thesis using h1 h2 h3 c1 c2 c3 by simp
qed



lemma prvGetAction_bogus: "prvGetAction (Some ''bogus'') 5 = Inr JOB_ACTION_UNKNOWN"
  by (simp add: prvGetAction_def cstr_def strncmp_Cons)

text \<open>
  The two outcomes around the action key: a missing key is reported as "FAILED"; an
  action that \<^verbatim>\<open>prvGetAction\<close> does not know is only printed.
\<close>

lemma missing_action_reports_failed:
  assumes "usJobIdLength > 0" and "jobDocumentLength > 0"
    and "JSON_Search e doc jobDocumentLength QUERY_KEY_FOR_ACTION = None"
  shows "prvProcessJobDocument e cfg (Some j) usJobIdLength (Some doc) jobDocumentLength s
           = prvSendUpdateForJob e cfg (Some j) usJobIdLength
               (Some (MAKE_STATUS_REPORT ''FAILED'')) (do_call (Log LogError) s)"
  using assms by (simp add: prvProcessJobDocument_def)

lemma unknown_action_only_prints:
  assumes "usJobIdLength > 0" and "jobDocumentLength > 0"
    and "JSON_Search e doc jobDocumentLength QUERY_KEY_FOR_ACTION = Some (a, n)"
    and "prvGetAction (Some a) n = Inr JOB_ACTION_UNKNOWN"
  shows "prvProcessJobDocument e cfg (Some j) usJobIdLength (Some doc) jobDocumentLength s
           = Inr (do_call (Log ConfigPrintf) s)"
  using assms by (simp add: prvProcessJobDocument_def)

text \<open>
  C2. For a job document whose action is \<open>bogus\<close>, which is no known action, the
  dispatcher only prints: the state after the call differs from the state before by one
  \<^verbatim>\<open>configPRINTF\<close> entry, and no status report is published.
\<close>

theorem unknown_action_reports_nothing:
  "prvProcessJobDocument
     (sample_env\<lparr>JSON_Search :=
        (\<lambda>doc len key. if key = QUERY_KEY_FOR_ACTION then Some (''bogus'', 5) else None)\<rparr>)
     sample_config (Some ''job1'') 4 (Some ''doc'') 3 sample_state
   = Inr (sample_state\<lparr>calls := [Log ConfigPrintf]\<rparr>)"
  by (simp add: prvProcessJobDocument_def prvGetAction_bogus do_call_def sample_state_def)



section \<open>Properties of the inbound job message callback\<close>

text \<open>
  The third argument of the \<^verbatim>\<open>strncmp\<close> in the OTA test is 0, so the call returns 0
  for every job id and the OTA branch is never taken.
\<close>

lemma ota_test_is_zero:
  "strncmp pJobId (cstr ''AFR_OTA'') (if length ''AFR_OTA'' = 0 then 1 else 0) = Inr 0"
  by simp

text \<open>
  Nothing on the custom-job path touches the pool or signals the OTA agent, and the
  callback never leaves that path.
\<close>

lemma pool_untouched_refl: "pool_untouched s s"
  by (simp add: pool_untouched_def)

lemma pool_untouched_trans:
  "pool_untouched s s1 \<Longrightarrow> pool_untouched s1 s2 \<Longrightarrow> pool_untouched s s2"
  by (simp add: pool_untouched_def)

lemma pool_untouched_log: "pool_untouched s (do_call (Log l) s)"
  by (simp add: pool_untouched_def do_call_def)

lemma prvSendUpdateForJob_pool:
  "prvSendUpdateForJob e cfg j n r s = Inr s' \<Longrightarrow> pool_untouched s s'"
  by (auto simp: prvSendUpdateForJob_def pool_untouched_def do_call_def
      split: option.splits if_splits sum.splits)

lemma prvProcessJobDocument_pool:
  assumes "prvProcessJobDocument e cfg j n d len s = Inr s'"
  shows "pool_untouched s s'"
proof -
  have step: "\<And>r s0. pool_untouched s s0 \<Longrightarrow> prvSendUpdateForJob e cfg j n r s0 = Inr s'
                 \<Longrightarrow> pool_untouched s s'"
    using prvSendUpdateForJob_pool pool_untouched_trans by blast
  have ex: "\<And>r s0 s1. pool_untouched s s0 \<Longrightarrow> prvSendUpdateForJob e cfg j n r s0 = Inr s1
                 \<Longrightarrow> pool_untouched s (do_call AgentTerminate s1)"
    using prvSendUpdateForJob_pool[of e cfg j n]
    by (fastforce simp: pool_untouched_def do_call_def)
  have a: "pool_untouched s (do_call (Log LogError) s)"
    and b: "pool_untouched s ((do_call (Log LogInfo) s)\<lparr>xExitActionJobReceived := True\<rparr>)"
    and c: "pool_untouched s (do_call (Log LogInfo) (do_call (Log LogInfo) s))"
    and d: "pool_untouched s (do_call (Log LogError) (do_call (Log LogInfo) s))"
    and f: "\<And>x. pool_untouched s (do_call (Log ConfigPrintf) s)"
    and g: "\<And>t tl m ml. pool_untouched s
              (do_call (PublishToTopic t tl m ml) (do_call (Log LogInfo) s))"
    and h: "\<And>t tl m ml. pool_untouched s
              (do_call (Log LogError)
                 ((do_call (PublishToTopic t tl m ml) (do_call (Log LogInfo) s))
                    \<lparr>xDemoEncounteredError := True\<rparr>))"
    by (simp_all add: pool_untouched_def do_call_def)
  show ?thesis
    using assms
    apply (simp add: prvProcessJobDocument_def Let_def
        split: option.splits if_splits sum.splits prod.splits JobActionType.splits)
    using step ex a b c d f g h apply blast+
    done
qed

lemma prvNextJobHandler_pool:
  assumes "prvNextJobHandler e cfg info s = Inr s'"
  shows "pool_untouched s s'"
proof -
  have "\<And>j n d len s0. pool_untouched s s0
          \<Longrightarrow> prvProcessJobDocument e cfg j n d len s0 = Inr s' \<Longrightarrow> pool_untouched s s'"
    using prvProcessJobDocument_pool pool_untouched_trans by blast
  moreover have "pool_untouched s (do_call (Log LogError) s)"
    and "pool_untouched s (do_call (Log LogWarn) s)"
    and "\<And>b. pool_untouched s (do_call (Log LogWarn) ((do_call (Log LogInfo) s)\<lparr>usJobIdBuffer := b\<rparr>))"
    and "\<And>b c. pool_untouched s
            ((do_call (Log LogInfo) s)\<lparr>usJobIdBuffer := b, usJobsDocumentBuffer := c\<rparr>)"
    by (simp_all add: pool_untouched_def do_call_def)
  ultimately show ?thesis
    using assms
    apply (simp add: prvNextJobHandler_def Let_def
        split: option.splits if_splits sum.splits prod.splits)
    apply blast+
    done
qed

lemma prvProcessIncomingJobMessage_pool:
  assumes "prvProcessIncomingJobMessage e cfg info s = Inr s'"
  shows "pool_untouched s s'"
proof -
  have "\<And>i s0. pool_untouched s s0
          \<Longrightarrow> prvNextJobHandler e cfg i s0 = Inr s' \<Longrightarrow> pool_untouched s s'"
    using prvNextJobHandler_pool pool_untouched_trans by blast
  moreover have "pool_untouched s (do_call (Log LogInfo) s)"
    and "pool_untouched s (do_call (Log LogInfo) (do_call (Log LogInfo) s))"
    and "pool_untouched s (do_call (Log LogWarn) (do_call (Log LogInfo) s))"
    and "pool_untouched s (do_call (Log LogError) (do_call (Log LogWarn) (do_call (Log LogInfo) s)))"
    by (simp_all add: pool_untouched_def do_call_def)
  ultimately show ?thesis
    using assms
    by (auto simp: prvProcessIncomingJobMessage_def Let_def
        split: option.splits if_splits sum.splits prod.splits)
qed

text \<open>
  C1. A job message whose job id is \<open>AFR_OTA-1\<close>, which carries the reserved prefix,
  arrives while both pool slots are free. The callback takes the custom-job path: it
  logs the receipt and the acceptance of the update, acquires no buffer and sends no event
  to the OTA agent.
\<close>

theorem ota_job_message_takes_custom_path:
  "take 7 (fst (snd (snd (Jobs_MatchTopic sample_env
       ''$aws/things/thing/jobs/AFR_OTA-1/update/accepted'' 48 ''thing'')))) = ''AFR_OTA''
   \<and> prvProcessIncomingJobMessage sample_env sample_config
       (Some \<lparr>qos = 1, pTopicName = ''$aws/things/thing/jobs/AFR_OTA-1/update/accepted'',
              topicNameLength = 48, pPayload = Some ''{}'', payloadLength = 2\<rparr>)
       sample_state
     = Inr (sample_state\<lparr>calls := [Log LogInfo, Log LogInfo]\<rparr>)"
  by (simp add: prvProcessIncomingJobMessage_def sample_env_def sample_config_def
      do_call_def sample_state_def Let_def)

end
